theory Spec2Isabelle
  imports Main "HOL-Library.Sublist"
begin

section \<open>The news feed hook: data model\<close>

text \<open>
  This theory embeds \<^verbatim>\<open>src/hooks/useNewsFeeds.js\<close>: the feed parser
  \<^verbatim>\<open>parseRSSItems\<close>, the proxy fetcher \<^verbatim>\<open>fetchWithProxy\<close>, the refresh routine
  \<^verbatim>\<open>fetchNews\<close> and the static list \<^verbatim>\<open>getFallbackArticles\<close>.

  What the browser does for the code (parsing XML and HTML, parsing a date string, the
  network, the system clock) is not code of the repository: it is gathered in the record
  \<open>host\<close> below, and every definition takes the host as an argument.
\<close>

subsection \<open>Strings\<close>

text \<open>
  A string is the list of its code units; the model covers the code units below 256,
  where \<^verbatim>\<open>trim\<close> removes the white space 9 to 13, 32 and 160 and
  \<^verbatim>\<open>toLowerCase\<close> adds 32 to the letters A to Z and to the capital letters 192 to 222
  (215, the multiplication sign, apart).
\<close>

definition isWhiteSpace :: "char \<Rightarrow> bool" where
  "isWhiteSpace c =
     (let n = (of_char c :: nat) in (9 \<le> n \<and> n \<le> 13) \<or> n = 32 \<or> n = 160)"

definition trim :: "string \<Rightarrow> string" where
  "trim s = rev (dropWhile isWhiteSpace (rev (dropWhile isWhiteSpace s)))"

definition toLowerCase_char :: "char \<Rightarrow> char" where
  "toLowerCase_char c =
     (let n = (of_char c :: int) in
      if (65 \<le> n \<and> n \<le> 90) \<or> (192 \<le> n \<and> n \<le> 222 \<and> n \<noteq> 215)
      then char_of (n + 32) else c)"

definition toLowerCase :: "string \<Rightarrow> string" where
  "toLowerCase s = map toLowerCase_char s"

text \<open>\<^verbatim>\<open>s.slice(0, n)\<close>: the first \<open>n\<close> code units, all of \<open>s\<close> when it is shorter.\<close>

definition slice0 :: "nat \<Rightarrow> string \<Rightarrow> string" where
  "slice0 n s = take n s"

text \<open>
  A value that is a string or \<^verbatim>\<open>undefined\<close> is a \<open>string option\<close>. It is truthy
  when it is a non-empty string; \<^verbatim>\<open>a || b\<close> is \<open>a\<close> when \<open>a\<close> is truthy and
  \<open>b\<close> otherwise.
\<close>

definition truthy :: "string option \<Rightarrow> bool" where
  "truthy v = (case v of None \<Rightarrow> False | Some s \<Rightarrow> s \<noteq> [])"

definition or_value :: "string option \<Rightarrow> string option \<Rightarrow> string option" where
  "or_value a b = (if truthy a then a else b)"

definition or_string :: "string option \<Rightarrow> string \<Rightarrow> string" where
  "or_string a b = (case a of None \<Rightarrow> b | Some s \<Rightarrow> if s \<noteq> [] then s else b)"

subsection \<open>The document tree\<close>

text \<open>
  A parsed document is a tree of elements (local name, attributes, children) and text
  nodes. \<^verbatim>\<open>querySelectorAll\<close> lists the elements below a node that match a selector,
  in document order; \<^verbatim>\<open>querySelector\<close> gives the first of them or \<^verbatim>\<open>null\<close>.
  The code uses two kinds of selector: a tag name, and \<^verbatim>\<open>link[href]\<close>.
\<close>

datatype node =
  Element (tagName: string) (attributes: "(string \<times> string) list") (childNodes: "node list")
  | Text string

fun textContent :: "node \<Rightarrow> string" where
  "textContent (Text s) = s"
| "textContent (Element t a cs) = concat (map textContent cs)"

fun isElement :: "node \<Rightarrow> bool" where
  "isElement (Element t a cs) = True"
| "isElement (Text s) = False"

fun descendants :: "node \<Rightarrow> node list" where
  "descendants (Text s) = []"
| "descendants (Element t a cs) =
     concat (map (\<lambda>c. (if isElement c then [c] else []) @ descendants c) cs)"

fun getAttribute :: "string \<Rightarrow> node \<Rightarrow> string option" where
  "getAttribute a (Element t as cs) = map_of as a"
| "getAttribute a (Text s) = None"

datatype selector = Tag string | TagWithAttribute string string

fun matches :: "selector \<Rightarrow> node \<Rightarrow> bool" where
  "matches (Tag t) n = (isElement n \<and> tagName n = t)"
| "matches (TagWithAttribute t a) n =
     (isElement n \<and> tagName n = t \<and> getAttribute a n \<noteq> None)"

definition querySelectorAll :: "selector \<Rightarrow> node \<Rightarrow> node list" where
  "querySelectorAll sel n = filter (matches sel) (descendants n)"

definition querySelector :: "selector \<Rightarrow> node \<Rightarrow> node option" where
  "querySelector sel n = (case querySelectorAll sel n of [] \<Rightarrow> None | e # _ \<Rightarrow> Some e)"

text \<open>\<^verbatim>\<open>n.querySelector(t)?.textContent?.trim()\<close>\<close>

definition trimmedText :: "string \<Rightarrow> node \<Rightarrow> string option" where
  "trimmedText t n = map_option (\<lambda>e. trim (textContent e)) (querySelector (Tag t) n)"

subsection \<open>Dates, numbers and the host\<close>

text \<open>
  A \<^verbatim>\<open>Date\<close> holds a time value in milliseconds, or \<^verbatim>\<open>NaN\<close>: the invalid date
  that \<^verbatim>\<open>new Date(s)\<close> returns for a string it cannot parse. Subtracting two dates gives
  a number, \<^verbatim>\<open>NaN\<close> as soon as one of them is invalid.
\<close>

datatype date = Time int | InvalidDate

datatype number = Num int | NaN

fun minus_date :: "date \<Rightarrow> date \<Rightarrow> number" where
  "minus_date (Time a) (Time b) = Num (a - b)"
| "minus_date a b = NaN"

fun isValid :: "date \<Rightarrow> bool" where
  "isValid (Time t) = True"
| "isValid InvalidDate = False"

text \<open>\<^verbatim>\<open>a >= b\<close> on dates: false as soon as one of them is invalid.\<close>

fun date_ge :: "date \<Rightarrow> date \<Rightarrow> bool" where
  "date_ge (Time a) (Time b) = (b \<le> a)"
| "date_ge a b = False"

text \<open>\<^verbatim>\<open>valueOf\<close> of a valid date; the value at the invalid date is not used.\<close>

fun valueOf :: "date \<Rightarrow> int" where
  "valueOf (Time t) = t"
| "valueOf InvalidDate = 0"

text \<open>
  The clock of one synchronous run: \<open>clk k\<close> is what the \<open>k\<close>-th reading of the system
  clock in that run returns (\<^verbatim>\<open>new Date()\<close>, \<^verbatim>\<open>Date.now()\<close>), counted from 0.
\<close>

type_synonym clock = "nat \<Rightarrow> int"

text \<open>
  A request either throws (time-out, network error) or resolves with a response, whose
  \<^verbatim>\<open>ok\<close> flag says that the status is 2xx and whose body is read by
  \<^verbatim>\<open>res.text()\<close>, which can throw as well (\<open>None\<close>).
\<close>

datatype response = Response (ok: bool) (body: "string option")

datatype fetch_outcome = Throws | Resolves response

record host =
  parseFromString :: "string \<Rightarrow> node"
  html_textContent :: "string \<Rightarrow> string"
  html_innerText :: "string \<Rightarrow> string"
  Date_parse :: "string \<Rightarrow> int option"
  fetch :: "string \<Rightarrow> fetch_outcome"
  parse_clock :: "nat \<Rightarrow> clock"
  final_clock :: clock
  host_fault :: bool

text \<open>
  \<^item> \<open>parseFromString\<close>: \<^verbatim>\<open>new DOMParser().parseFromString(s, 'text/xml')\<close>, the
    document node.
  \<^item> \<open>html_textContent\<close>, \<open>html_innerText\<close>: the \<^verbatim>\<open>textContent\<close> and the
    \<^verbatim>\<open>innerText\<close> of a detached \<^verbatim>\<open>div\<close> whose \<^verbatim>\<open>innerHTML\<close> was set to the string.
  \<^item> \<open>Date_parse\<close>: the time value of \<^verbatim>\<open>new Date(s)\<close>, \<open>None\<close> when the string does
    not parse.
  \<^item> \<open>fetch\<close>: what the request to a URL does (with its 8 second time-out).
  \<^item> \<open>parse_clock i\<close>: the clock while the feed of source \<open>i\<close> is parsed;
    \<open>final_clock\<close>: the clock of the run that ends the refresh.
  \<^item> \<open>host_fault\<close>: the host raises an exception while the fan-out and merge of
    \<^verbatim>\<open>fetchNews\<close> run (lines 132 to 152). Nothing there throws by itself; an engine
    without \<^verbatim>\<open>Promise.allSettled\<close> is one way to get it.
\<close>

definition new_Date :: "host \<Rightarrow> string \<Rightarrow> date" where
  "new_Date h s = (case Date_parse h s of None \<Rightarrow> InvalidDate | Some t \<Rightarrow> Time t)"

record feed_source =
  name :: string
  url :: string
  category :: string
  color :: string

record article =
  title :: string
  link :: string
  pubDate :: date
  description :: string
  source :: string
  category :: string
  color :: string

section \<open>The feed parser\<close>

text \<open>
  The four values \<^verbatim>\<open>parseRSSItems\<close> reads from an element before it decides to push
  an article: title, link, date text and body text.
\<close>

record read_fields =
  title_text :: "string option"
  link_text :: "string option"
  date_text :: "string option"
  body_text :: "string option"

text \<open>Lines 50 to 53: the fields of an RSS \<^verbatim>\<open>item\<close>.\<close>

definition item_fields :: "node \<Rightarrow> read_fields" where
  "item_fields item =
     \<lparr>title_text = trimmedText ''title'' item,
      link_text = trimmedText ''link'' item,
      date_text = trimmedText ''pubDate'' item,
      body_text = trimmedText ''description'' item\<rparr>"

text \<open>Lines 77 to 83: the fields of an Atom \<^verbatim>\<open>entry\<close>.\<close>

definition entry_fields :: "node \<Rightarrow> read_fields" where
  "entry_fields entry =
     \<lparr>title_text = trimmedText ''title'' entry,
      link_text =
        (case querySelector (TagWithAttribute ''link'' ''href'') entry of
           None \<Rightarrow> None
         | Some linkEl \<Rightarrow> getAttribute ''href'' linkEl),
      date_text = or_value (trimmedText ''published'' entry) (trimmedText ''updated'' entry),
      body_text = or_value (trimmedText ''summary'' entry) (trimmedText ''content'' entry)\<rparr>"

text \<open>
  Lines 57 to 59 and 86 to 88: the text of the description, its HTML stripped by the host.
\<close>

definition cleanDesc :: "host \<Rightarrow> string option \<Rightarrow> string" where
  "cleanDesc h d =
     (let html = or_string d [];
          t = html_textContent h html
      in if t \<noteq> [] then t
         else (let u = html_innerText h html in if u \<noteq> [] then u else []))"

text \<open>
  Lines 64 and 93, \<^verbatim>\<open>pubDate ? new Date(pubDate) : new Date()\<close>: the date, and the
  number of clock readings made so far.
\<close>

definition make_pubDate :: "host \<Rightarrow> clock \<Rightarrow> nat \<Rightarrow> string option \<Rightarrow> date \<times> nat" where
  "make_pubDate h clk k p =
     (case p of
        None \<Rightarrow> (Time (clk k), Suc k)
      | Some s \<Rightarrow> if s \<noteq> [] then (new_Date h s, k) else (Time (clk k), Suc k))"

text \<open>
  Lines 55 to 70 and 85 to 99, the body of the two \<^verbatim>\<open>forEach\<close> callbacks once the
  fields are read: the article pushed and the clock readings made, or \<open>None\<close> when
  \<^verbatim>\<open>title && link\<close> is falsy and nothing is pushed.
\<close>

definition push_article ::
  "host \<Rightarrow> clock \<Rightarrow> feed_source \<Rightarrow> nat \<Rightarrow> read_fields \<Rightarrow> (article \<times> nat) option" where
  "push_article h clk src k f =
     (case title_text f of
        None \<Rightarrow> None
      | Some ttl \<Rightarrow>
         (case link_text f of
            None \<Rightarrow> None
          | Some lnk \<Rightarrow>
             if ttl \<noteq> [] \<and> lnk \<noteq> [] then
               (let desc = cleanDesc h (body_text f);
                    (dt, k') = make_pubDate h clk k (date_text f)
                in Some (\<lparr>title = ttl, link = lnk, pubDate = dt,
                          description = slice0 200 desc,
                          source = name src,
                          category = feed_source.category src,
                          color = feed_source.color src\<rparr>, k'))
             else None))"

text \<open>
  \<^verbatim>\<open>forEach\<close> with \<^verbatim>\<open>items.push\<close>: the articles pushed for a list of elements, in
  their order, the count of clock readings threaded through.
\<close>

fun forEach_push ::
  "(nat \<Rightarrow> node \<Rightarrow> (article \<times> nat) option) \<Rightarrow> nat \<Rightarrow> node list \<Rightarrow> article list" where
  "forEach_push f k [] = []"
| "forEach_push f k (e # es) =
     (case f k e of
        None \<Rightarrow> forEach_push f k es
      | Some (a, k') \<Rightarrow> a # forEach_push f k' es)"

definition rss_articles :: "host \<Rightarrow> clock \<Rightarrow> feed_source \<Rightarrow> node \<Rightarrow> article list" where
  "rss_articles h clk src xml =
     forEach_push (\<lambda>k item. push_article h clk src k (item_fields item)) 0
       (querySelectorAll (Tag ''item'') xml)"

definition atom_articles :: "host \<Rightarrow> clock \<Rightarrow> feed_source \<Rightarrow> node \<Rightarrow> article list" where
  "atom_articles h clk src xml =
     forEach_push (\<lambda>k entry. push_article h clk src k (entry_fields entry)) 0
       (querySelectorAll (Tag ''entry'') xml)"

text \<open>
  \<^verbatim>\<open>parseRSSItems(xmlText, source)\<close>, lines 41 to 104. The Atom loop pushes to the same
  array, and runs when that array is empty after the RSS loop; no clock reading was made
  by then, so it counts from 0 again.
\<close>

definition parseRSSItems :: "host \<Rightarrow> clock \<Rightarrow> string \<Rightarrow> feed_source \<Rightarrow> article list" where
  "parseRSSItems h clk xmlText src =
     (let xml = parseFromString h xmlText;
          items = rss_articles h clk src xml;
          items' = (if length items = 0 then items @ atom_articles h clk src xml else items)
      in take 8 items')"

text \<open>
  To state what the parser keeps: an element qualifies when the title and the link read
  from it are both truthy; the qualifying elements of a document are its qualifying items
  or, when there is none, its qualifying entries, each given by the fields read from it.
\<close>

definition qualifies :: "read_fields \<Rightarrow> bool" where
  "qualifies f = (truthy (title_text f) \<and> truthy (link_text f))"

definition rss_qualifying :: "node \<Rightarrow> read_fields list" where
  "rss_qualifying xml = filter qualifies (map item_fields (querySelectorAll (Tag ''item'') xml))"

definition atom_qualifying :: "node \<Rightarrow> read_fields list" where
  "atom_qualifying xml =
     filter qualifies (map entry_fields (querySelectorAll (Tag ''entry'') xml))"

definition qualifying :: "node \<Rightarrow> read_fields list" where
  "qualifying xml = (if rss_qualifying xml = [] then atom_qualifying xml else rss_qualifying xml)"

text \<open>
  \<open>pushed h clk src f a\<close>: the callback pushes the article \<open>a\<close> for an element with the
  fields \<open>f\<close>, at some count of clock readings.
\<close>

definition pushed :: "host \<Rightarrow> clock \<Rightarrow> feed_source \<Rightarrow> read_fields \<Rightarrow> article \<Rightarrow> bool" where
  "pushed h clk src f a = (\<exists>k k'. push_article h clk src k f = Some (a, k'))"

section \<open>The proxy fetcher\<close>

text \<open>
  \<^verbatim>\<open>encodeURIComponent\<close> keeps the letters, the digits and \<^verbatim>\<open>- _ . ! ~ * ' ( )\<close>,
  and writes every other code unit as the bytes of its UTF-8 form, each as \<^verbatim>\<open>%XX\<close>.
\<close>

definition unreserved :: "char \<Rightarrow> bool" where
  "unreserved c =
     (c \<in> set ''ABCDEFGHIJKLMNOPQRSTUVWXYZabcdefghijklmnopqrstuvwxyz0123456789-_.!~*()''
      \<or> c = CHR 0x27)"

definition hexDigit :: "nat \<Rightarrow> char" where
  "hexDigit n = ''0123456789ABCDEF'' ! (n mod 16)"

definition percent :: "nat \<Rightarrow> string" where
  "percent n = [CHR ''%'', hexDigit (n div 16), hexDigit n]"

definition encode_char :: "char \<Rightarrow> string" where
  "encode_char c =
     (let n = (of_char c :: nat) in
      if unreserved c then [c]
      else if n < 128 then percent n
      else percent (192 + n div 64) @ percent (128 + n mod 64))"

definition encodeURIComponent :: "string \<Rightarrow> string" where
  "encodeURIComponent s = concat (map encode_char s)"

definition CORS_PROXIES :: "(string \<Rightarrow> string) list" where
  "CORS_PROXIES =
     [\<lambda>u. ''https://api.allorigins.win/raw?url='' @ encodeURIComponent u,
      \<lambda>u. ''https://corsproxy.io/?'' @ encodeURIComponent u]"

text \<open>
  The loop of \<^verbatim>\<open>fetchWithProxy\<close> (lines 107 to 118) over the proxies left to try: what
  it returns (\<open>None\<close> is \<^verbatim>\<open>null\<close>) and the URLs it has requested, in order. A request
  that throws, and a body that cannot be read, are caught and the loop goes on; a response
  that is not \<^verbatim>\<open>ok\<close> falls out of the \<^verbatim>\<open>if\<close> and the loop goes on as well.
\<close>

fun tryProxies ::
  "(string \<Rightarrow> fetch_outcome) \<Rightarrow> (string \<Rightarrow> string) list \<Rightarrow> string \<Rightarrow> string option \<times> string list" where
  "tryProxies net [] u = (None, [])"
| "tryProxies net (proxyFn # rest) u =
     (let proxyUrl = proxyFn u;
          (later, asked) = tryProxies net rest u
      in case net proxyUrl of
           Throws \<Rightarrow> (later, proxyUrl # asked)
         | Resolves res \<Rightarrow>
            if ok res then
              (case body res of
                 None \<Rightarrow> (later, proxyUrl # asked)
               | Some txt \<Rightarrow> (Some txt, [proxyUrl]))
            else (later, proxyUrl # asked))"

definition fetchWithProxy :: "(string \<Rightarrow> fetch_outcome) \<Rightarrow> string \<Rightarrow> string option" where
  "fetchWithProxy net u = fst (tryProxies net CORS_PROXIES u)"

definition requested :: "(string \<Rightarrow> fetch_outcome) \<Rightarrow> string \<Rightarrow> string list" where
  "requested net u = snd (tryProxies net CORS_PROXIES u)"

text \<open>
  What one request gives the loop: the text of the body when the request resolves with an
  \<^verbatim>\<open>ok\<close> response whose body is read, nothing otherwise.
\<close>

definition delivered :: "fetch_outcome \<Rightarrow> string option" where
  "delivered out =
     (case out of
        Throws \<Rightarrow> None
      | Resolves res \<Rightarrow> if ok res then body res else None)"

section \<open>The aggregator\<close>

text \<open>Lines 3 to 34: the five sources, named here after their position in the list.\<close>

definition techcrunch :: feed_source where
  "techcrunch =
     \<lparr>name = ''TechCrunch AI'',
      url = ''https://techcrunch.com/category/artificial-intelligence/feed/'',
      category = ''Industry'', color = ''#10b981''\<rparr>"

definition the_verge :: feed_source where
  "the_verge =
     \<lparr>name = ''The Verge AI'',
      url = ''https://www.theverge.com/rss/ai-artificial-intelligence/index.xml'',
      category = ''Industry'', color = ''#8b5cf6''\<rparr>"

definition mit_tech_review :: feed_source where
  "mit_tech_review =
     \<lparr>name = ''MIT Tech Review'',
      url = ''https://www.technologyreview.com/feed/'',
      category = ''Research'', color = ''#ec4899''\<rparr>"

definition ars_technica :: feed_source where
  "ars_technica =
     \<lparr>name = ''Ars Technica AI'',
      url = ''https://feeds.arstechnica.com/arstechnica/technology-lab'',
      category = ''Tools'', color = ''#f59e0b''\<rparr>"

definition venturebeat :: feed_source where
  "venturebeat =
     \<lparr>name = ''VentureBeat AI'',
      url = ''https://venturebeat.com/category/ai/feed/'',
      category = ''Industry'', color = ''#06b6d4''\<rparr>"

definition RSS_SOURCES :: "feed_source list" where
  "RSS_SOURCES = [techcrunch, the_verge, mit_tech_review, ars_technica, venturebeat]"

text \<open>
  \<^verbatim>\<open>Array.prototype.sort\<close> with a comparator, as V8 (Chrome, Node.js) runs it on an
  array of objects with fewer than 64 elements. The minimal run length of its TimSort is
  then the length of the array, so the sort is: count the run the array starts with
  (\<^verbatim>\<open>CountAndMakeRun\<close>: the longest prefix that never descends, or that strictly descends
  and is then reversed), and insert each element after the run into the sorted prefix at
  the place a binary search finds (\<^verbatim>\<open>BinaryInsertionSort\<close>). The engine reads a
  comparator result \<^verbatim>\<open>NaN\<close> as 0 (\<open>sortCompare\<close>). The refresh sorts at most 40 articles
  (lemma \<open>length_flattened\<close>). The standard fixes the result up to the order of equal
  elements when the comparator orders the elements consistently, and leaves it to the
  engine otherwise, which is the case as soon as a date is invalid.
\<close>

definition sortCompare :: "('a \<Rightarrow> 'a \<Rightarrow> number) \<Rightarrow> 'a \<Rightarrow> 'a \<Rightarrow> int" where
  "sortCompare cmp x y = (case cmp x y of NaN \<Rightarrow> 0 | Num v \<Rightarrow> v)"

text \<open>
  The loop of \<^verbatim>\<open>CountAndMakeRun\<close>: how many of the elements \<open>xs\<close> after \<open>prev\<close> continue
  the run.
\<close>

fun run_more :: "('a \<Rightarrow> 'a \<Rightarrow> number) \<Rightarrow> bool \<Rightarrow> 'a \<Rightarrow> 'a list \<Rightarrow> nat" where
  "run_more cmp desc prev [] = 0"
| "run_more cmp desc prev (x # xs) =
     (let order = sortCompare cmp x prev
      in if desc then (if 0 \<le> order then 0 else Suc (run_more cmp desc x xs))
         else (if order < 0 then 0 else Suc (run_more cmp desc x xs)))"

text \<open>The array after \<^verbatim>\<open>CountAndMakeRun\<close>, and the length of the run.\<close>

fun countAndMakeRun :: "('a \<Rightarrow> 'a \<Rightarrow> number) \<Rightarrow> 'a list \<Rightarrow> 'a list \<times> nat" where
  "countAndMakeRun cmp [] = ([], 0)"
| "countAndMakeRun cmp [x] = ([x], 1)"
| "countAndMakeRun cmp (x0 # x1 # rest) =
     (let desc = (sortCompare cmp x1 x0 < 0);
          n = 2 + run_more cmp desc x1 rest
      in (if desc then rev (take n (x0 # x1 # rest)) @ drop n (x0 # x1 # rest)
          else x0 # x1 # rest, n))"

text \<open>
  The binary search of \<^verbatim>\<open>BinaryInsertionSort\<close> for the place of \<open>pivot\<close> in the sorted
  prefix \<open>ws\<close>, between \<open>left\<close> and \<open>right\<close>.
\<close>

function binarySearch :: "('a \<Rightarrow> 'a \<Rightarrow> number) \<Rightarrow> 'a \<Rightarrow> 'a list \<Rightarrow> nat \<Rightarrow> nat \<Rightarrow> nat" where
  "binarySearch cmp pivot ws left right =
     (if left < right then
        (let mid = left + (right - left) div 2
         in if sortCompare cmp pivot (ws ! mid) < 0 then binarySearch cmp pivot ws left mid
            else binarySearch cmp pivot ws (mid + 1) right)
      else left)"
  by pat_completeness auto
termination
  by (relation "measure (\<lambda>(cmp, pivot, ws, left, right). right - left)") auto

declare binarySearch.simps [simp del]

text \<open>\<^verbatim>\<open>BinaryInsertionSort\<close>: the sorted prefix \<open>ws\<close>, and the elements still to insert.\<close>

fun binaryInsertionSort :: "('a \<Rightarrow> 'a \<Rightarrow> number) \<Rightarrow> 'a list \<Rightarrow> 'a list \<Rightarrow> 'a list" where
  "binaryInsertionSort cmp ws [] = ws"
| "binaryInsertionSort cmp ws (pivot # rest) =
     (let left = binarySearch cmp pivot ws 0 (length ws)
      in binaryInsertionSort cmp (take left ws @ pivot # drop left ws) rest)"

definition Array_sort :: "('a \<Rightarrow> 'a \<Rightarrow> number) \<Rightarrow> 'a list \<Rightarrow> 'a list" where
  "Array_sort cmp xs =
     (if length xs < 2 then xs
      else (let (ws, n) = countAndMakeRun cmp xs
            in binaryInsertionSort cmp (take n ws) (drop n ws)))"

text \<open>Line 143: \<^verbatim>\<open>(a, b) => b.pubDate - a.pubDate\<close>.\<close>

definition compareFn :: "article \<Rightarrow> article \<Rightarrow> number" where
  "compareFn a b = minus_date (pubDate b) (pubDate a)"

text \<open>Line 148: the deduplication key.\<close>

definition dedup_key :: "article \<Rightarrow> string" where
  "dedup_key a = slice0 50 (toLowerCase (title a))"

text \<open>Lines 146 to 152: the filter, with the set \<^verbatim>\<open>seen\<close> passed along.\<close>

fun dedup_filter :: "string set \<Rightarrow> article list \<Rightarrow> article list" where
  "dedup_filter seen [] = []"
| "dedup_filter seen (a # as) =
     (let key = dedup_key a
      in if key \<in> seen then dedup_filter seen as
         else a # dedup_filter (insert key seen) as)"

text \<open>
  Lines 176 to 287. The first article is dated \<^verbatim>\<open>new Date()\<close>, the \<open>i\<close>-th after it
  \<^verbatim>\<open>new Date(Date.now() - i * 3600000)\<close>: twelve clock readings, from the \<open>k\<close>-th on.
\<close>

definition fallback_entry ::
  "clock \<Rightarrow> nat \<Rightarrow> nat \<Rightarrow> string \<Rightarrow> string \<Rightarrow> string \<Rightarrow> string \<Rightarrow> string \<Rightarrow> string \<Rightarrow> article" where
  "fallback_entry clk k i t l d s c col =
     \<lparr>title = t, link = l, pubDate = Time (clk (k + i) - int i * 3600000),
      description = d, source = s, category = c, color = col\<rparr>"

definition getFallbackArticles :: "clock \<Rightarrow> nat \<Rightarrow> article list" where
  "getFallbackArticles clk k =
     [fallback_entry clk k 0
        ''OpenAI Announces GPT-5 With Enhanced Reasoning Capabilities''
        ''https://techcrunch.com/category/artificial-intelligence/''
        ''The latest model from OpenAI brings significant improvements to multi-step reasoning, code generation, and real-time data analysis capabilities.''
        ''TechCrunch AI'' ''Industry'' ''#10b981'',
      fallback_entry clk k 1
        ''Google DeepMind Achieves Breakthrough in Protein Structure Prediction''
        ''https://www.technologyreview.com/''
        (''The research lab'' @ [CHR 0x27] @ ''s latest AlphaFold model can now predict protein interactions with near-experimental accuracy, opening new doors for drug discovery.'')
        ''MIT Tech Review'' ''Research'' ''#ec4899'',
      fallback_entry clk k 2
        ''Microsoft Invests $10B in New AI-Optimized Data Center Network''
        ''https://www.theverge.com/ai-artificial-intelligence''
        ''The new data centers will feature custom-designed AI accelerators and advanced cooling systems to support next-generation AI workloads.''
        ''The Verge AI'' ''Data Centers'' ''#8b5cf6'',
      fallback_entry clk k 3
        ''Anthropic Releases Claude with Advanced Tool Use and Computer Control''
        ''https://venturebeat.com/category/ai/''
        ''Claude can now interact with desktop applications, browse the web, and execute complex multi-step tasks autonomously.''
        ''VentureBeat AI'' ''Tools'' ''#06b6d4'',
      fallback_entry clk k 4
        ''NVIDIA Unveils Next-Gen Blackwell Ultra GPUs for AI Training''
        ''https://arstechnica.com/ai/''
        ''The new B300 GPUs deliver 4x performance improvement over previous generation, targeting enterprise AI training and inference workloads.''
        ''Ars Technica AI'' ''Data Centers'' ''#f59e0b'',
      fallback_entry clk k 5
        ''Meta Open-Sources Llama 4 with Mixture-of-Experts Architecture''
        ''https://techcrunch.com/category/artificial-intelligence/''
        ''The fully open-source model matches proprietary models in benchmarks while being significantly more efficient to run on consumer hardware.''
        ''TechCrunch AI'' ''Industry'' ''#10b981'',
      fallback_entry clk k 6
        ''Cursor and GitHub Copilot Battle for AI Coding Tool Supremacy''
        ''https://www.theverge.com/ai-artificial-intelligence''
        ''AI-powered coding assistants are transforming software development, with new features like multi-file editing and autonomous debugging.''
        ''The Verge AI'' ''Tools'' ''#8b5cf6'',
      fallback_entry clk k 7
        ''EU AI Act Enforcement Begins: What Companies Need to Know''
        ''https://www.technologyreview.com/''
        ''New regulations mandate transparency, risk assessments, and human oversight for high-risk AI systems deployed in the European Union.''
        ''MIT Tech Review'' ''Industry'' ''#ec4899'',
      fallback_entry clk k 8
        ''Perplexity AI Raises $500M, Aims to Replace Traditional Search''
        ''https://venturebeat.com/category/ai/''
        (''The AI-powered search engine now processes over 100 million queries per day, directly challenging Google'' @ [CHR 0x27] @ ''s search dominance.'')
        ''VentureBeat AI'' ''Tools'' ''#06b6d4'',
      fallback_entry clk k 9
        ''AWS Launches Custom AI Chips to Reduce Cloud Computing Costs''
        ''https://arstechnica.com/ai/''
        ''The Trainium3 chips promise 50% cost reduction for AI inference workloads compared to traditional GPU-based solutions.''
        ''Ars Technica AI'' ''Data Centers'' ''#f59e0b'',
      fallback_entry clk k 10
        ''Stable Diffusion 4 Generates Photorealistic Video From Text Prompts''
        ''https://techcrunch.com/category/artificial-intelligence/''
        ''The new model can produce 60-second high-definition videos with consistent characters and physics-accurate movements.''
        ''TechCrunch AI'' ''Tools'' ''#10b981'',
      fallback_entry clk k 11
        ''AI-Powered Drug Discovery Enters Phase 3 Clinical Trials''
        ''https://www.technologyreview.com/''
        (''Insilico Medicine'' @ [CHR 0x27] @ ''s AI-designed drug candidate for fibrosis shows promising results, potentially cutting drug development timelines by years.'')
        ''MIT Tech Review'' ''Research'' ''#ec4899'']"

text \<open>The state of the hook (lines 122 to 125).\<close>

record hook_state =
  articles :: "article list"
  loading :: bool
  error :: "string option"
  lastUpdated :: "date option"

datatype exception = UnexpectedError

datatype 'a settled = Fulfilled 'a | Rejected exception

fun isFulfilled :: "'a settled \<Rightarrow> bool" where
  "isFulfilled (Fulfilled v) = True"
| "isFulfilled (Rejected e) = False"

fun settled_value :: "'a list settled \<Rightarrow> 'a list" where
  "settled_value (Fulfilled v) = v"
| "settled_value (Rejected e) = []"

text \<open>
  Lines 133 to 137, the task of one source (the \<open>i\<close>-th): no text, or an empty one, gives
  the empty list. The task has no statement that throws, so it is always fulfilled.
\<close>

definition source_task :: "host \<Rightarrow> nat \<Rightarrow> feed_source \<Rightarrow> article list" where
  "source_task h i src =
     (let xmlText = fetchWithProxy (fetch h) (url src)
      in if \<not> truthy xmlText then []
         else (case xmlText of None \<Rightarrow> [] | Some x \<Rightarrow> parseRSSItems h (parse_clock h i) x src))"

definition allSettled :: "host \<Rightarrow> article list settled list" where
  "allSettled h = map (\<lambda>(i, src). Fulfilled (source_task h i src)) (enumerate 0 RSS_SOURCES)"

text \<open>Lines 140 to 143.\<close>

definition flattened :: "host \<Rightarrow> article list" where
  "flattened h = concat (map settled_value (filter isFulfilled (allSettled h)))"

definition allArticles :: "host \<Rightarrow> article list" where
  "allArticles h = Array_sort compareFn (flattened h)"

text \<open>Lines 146 to 152.\<close>

definition unique :: "host \<Rightarrow> article list" where
  "unique h = dedup_filter {} (allArticles h)"

text \<open>
  The \<^verbatim>\<open>try\<close> block (lines 131 to 159): the exception and the state it leaves, or the
  state at the end of the block. The setters are its last statements, so an exception
  leaves the state as it found it.
\<close>

definition try_block :: "host \<Rightarrow> hook_state \<Rightarrow> (exception \<times> hook_state) + hook_state" where
  "try_block h s =
     (if host_fault h then Inl (UnexpectedError, s)
      else (let u = unique h
            in if length u = 0
               then Inr (s\<lparr>articles := getFallbackArticles (final_clock h) 0,
                           lastUpdated := Some (Time (final_clock h 12))\<rparr>)
               else Inr (s\<lparr>articles := u, lastUpdated := Some (Time (final_clock h 0))\<rparr>)))"

text \<open>The \<^verbatim>\<open>catch\<close> block (lines 160 to 163).\<close>

definition catch_block :: "host \<Rightarrow> hook_state \<Rightarrow> hook_state" where
  "catch_block h s =
     s\<lparr>error := Some ''Could not load live feeds. Showing curated articles.'',
       articles := getFallbackArticles (final_clock h) 0,
       lastUpdated := Some (Time (final_clock h 12))\<rparr>"

text \<open>\<^verbatim>\<open>fetchNews\<close> (lines 127 to 167), the \<^verbatim>\<open>refresh\<close> of the hook.\<close>

definition fetchNews :: "host \<Rightarrow> hook_state \<Rightarrow> hook_state" where
  "fetchNews h s =
     (let s1 = s\<lparr>loading := True, error := None\<rparr>;
          s2 = (case try_block h s1 of
                  Inr s' \<Rightarrow> s'
                | Inl (e, s') \<Rightarrow> catch_block h s')
      in s2\<lparr>loading := False\<rparr>)"

section \<open>Example feeds and hosts\<close>

text \<open>
  Small documents, and hosts around them, on which the properties below are run. The
  example hosts strip no markup (the example texts have none), parse three dates, and
  give every run the same clock.
\<close>

definition leaf :: "string \<Rightarrow> string \<Rightarrow> node" where
  "leaf t s = Element t [] [Text s]"

definition rss_document :: "node list \<Rightarrow> node" where
  "rss_document items =
     Element ''#document'' []
       [Element ''rss'' [(''version'', ''2.0'')]
          [Element ''channel'' []
             (leaf ''title'' ''Example feed'' # leaf ''link'' ''https://example.org/'' # items)]]"

definition rss_item :: "string \<Rightarrow> string \<Rightarrow> string \<Rightarrow> node" where
  "rss_item t l p = Element ''item'' [] [leaf ''title'' t, leaf ''link'' l, leaf ''pubDate'' p]"

definition atom_entry :: "string \<Rightarrow> string \<Rightarrow> node list \<Rightarrow> node" where
  "atom_entry t l rest =
     Element ''entry'' []
       (leaf ''title'' t # Element ''link'' [(''rel'', ''alternate''), (''href'', l)] [] # rest)"

definition dated_feed :: node where
  "dated_feed =
     rss_document
       [rss_item ''Older story'' ''https://example.org/1'' ''Mon, 01 Jan 2024 00:00:00 GMT'',
        rss_item ''Misdated story'' ''https://example.org/2'' ''soon'',
        Element ''item'' [] [leaf ''title'' '' Undated story '', leaf ''link'' ''https://example.org/3''],
        rss_item ''Last story'' ''https://example.org/4'' ''Tue, 02 Jan 2024 00:00:00 GMT'']"

definition long_feed :: node where
  "long_feed =
     rss_document
       (map (\<lambda>t. rss_item t (''https://example.org/'' @ t) ''Mon, 01 Jan 2024 00:00:00 GMT'')
          [''a'', ''b'', ''c'', ''d'', ''e'', ''f'', ''g'', ''h'', ''i'', ''j''])"


definition mixed_feed :: node where
  "mixed_feed =
     Element ''#document'' []
       [Element ''feed'' []
          [leaf ''title'' ''Example feed'',
           Element ''item'' [] [leaf ''title'' ''An item without a link''],
           atom_entry ''First entry'' ''https://example.org/e1'' [leaf ''updated'' ''Tue, 02 Jan 2024 00:00:00 GMT''],
           atom_entry ''Second entry'' ''https://example.org/e2'' [leaf ''summary'' ''Text'']]]"

definition example_Date_parse :: "string \<Rightarrow> int option" where
  "example_Date_parse s =
     (if s = ''Mon, 01 Jan 2024 00:00:00 GMT'' then Some 1704067200000
      else if s = ''Tue, 02 Jan 2024 00:00:00 GMT'' then Some 1704153600000
      else if s = ''Wed, 03 Jan 2024 00:00:00 GMT'' then Some 1704240000000
      else None)"

definition example_clock :: clock where
  "example_clock k = 1704300000000 + int k"

definition example_host :: "(string \<Rightarrow> node) \<Rightarrow> (string \<Rightarrow> fetch_outcome) \<Rightarrow> bool \<Rightarrow> host" where
  "example_host parse net fault =
     \<lparr>parseFromString = parse,
      html_textContent = (\<lambda>s. s),
      html_innerText = (\<lambda>s. s),
      Date_parse = example_Date_parse,
      fetch = net,
      parse_clock = (\<lambda>i. example_clock),
      final_clock = example_clock,
      host_fault = fault\<rparr>"

definition parser_host :: "node \<Rightarrow> host" where
  "parser_host doc = example_host (\<lambda>s. doc) (\<lambda>u. Throws) False"

definition example_source :: feed_source where
  "example_source = \<lparr>name = ''Example'', url = ''https://example.org/feed'', category = ''Tools'', color = ''#000000''\<rparr>"

text \<open>
  Two networks for the target \<^verbatim>\<open>feed\<close>: on \<open>flaky_net\<close> the first proxy answers 200
  and the body cannot be read; on \<open>second_net\<close> the first proxy answers 502.
\<close>

definition flaky_net :: "string \<Rightarrow> fetch_outcome" where
  "flaky_net q =
     (if q = ''https://api.allorigins.win/raw?url=feed'' then Resolves (Response True None)
      else Resolves (Response True (Some ''<rss/>'')))"

definition second_net :: "string \<Rightarrow> fetch_outcome" where
  "second_net q =
     (if q = ''https://api.allorigins.win/raw?url=feed'' then Resolves (Response False (Some ''Bad gateway''))
      else if q = ''https://corsproxy.io/?feed'' then Resolves (Response True (Some ''<rss/>''))
      else Throws)"

text \<open>
  Hosts for a whole refresh, given by two tables: the body each proxy URL answers with
  (every other request throws), and the document each body parses to. On \<open>down_host\<close>
  every request throws; \<open>fault_host\<close> raises the host fault; on \<open>solo_host doc\<close> only the
  first proxy of the first source answers, with a feed that parses to \<open>doc\<close>; on
  \<open>one_down_host\<close> the third source is out of reach, the fourth answers through the second
  proxy, and each of the four live sources carries one story.
\<close>

definition empty_document :: node where
  "empty_document = Element ''#document'' [] []"

definition example_parse :: "(string \<times> node) list \<Rightarrow> string \<Rightarrow> node" where
  "example_parse docs s = (case map_of docs s of None \<Rightarrow> empty_document | Some d \<Rightarrow> d)"

definition example_net :: "(string \<times> string) list \<Rightarrow> string \<Rightarrow> fetch_outcome" where
  "example_net bodies q =
     (case map_of bodies q of None \<Rightarrow> Throws | Some b \<Rightarrow> Resolves (Response True (Some b)))"

definition down_host :: host where
  "down_host = example_host (example_parse []) (example_net []) False"

definition fault_host :: host where
  "fault_host = example_host (example_parse []) (example_net []) True"

definition solo_host :: "node \<Rightarrow> host" where
  "solo_host doc =
     example_host (example_parse [(''<rss>0</rss>'', doc)])
       (example_net
          [(''https://api.allorigins.win/raw?url=https%3A%2F%2Ftechcrunch.com%2Fcategory%2Fartificial-intelligence%2Ffeed%2F'',
            ''<rss>0</rss>'')])
       False"

definition duplicate_feed :: node where
  "duplicate_feed =
     rss_document
       [rss_item ''OpenAI announces a new model for reasoning and code generation today''
          ''https://example.org/1'' ''Mon, 01 Jan 2024 00:00:00 GMT'',
        rss_item ''OPENAI ANNOUNCES A NEW MODEL FOR REASONING AND CODE GENERATION - update''
          ''https://example.org/2'' ''Tue, 02 Jan 2024 00:00:00 GMT'',
        rss_item ''Another story'' ''https://example.org/3'' ''Wed, 03 Jan 2024 00:00:00 GMT'']"

text \<open>
  Two feeds with a date text that does not parse: in \<open>stale_feed\<close> it stands between two
  stories with the same key, in \<open>hidden_feed\<close> it is the date of the second of them.
\<close>

definition stale_feed :: node where
  "stale_feed =
     rss_document
       [rss_item ''Same title'' ''https://example.org/1'' ''Mon, 01 Jan 2024 00:00:00 GMT'',
        rss_item ''Misdated story'' ''https://example.org/2'' ''soon'',
        rss_item ''SAME TITLE'' ''https://example.org/3'' ''Wed, 03 Jan 2024 00:00:00 GMT'']"

definition hidden_feed :: node where
  "hidden_feed =
     rss_document
       [rss_item ''Same title'' ''https://example.org/1'' ''Mon, 01 Jan 2024 00:00:00 GMT'',
        rss_item ''SAME TITLE'' ''https://example.org/2'' ''soon'',
        rss_item ''Other story'' ''https://example.org/3'' ''Wed, 03 Jan 2024 00:00:00 GMT'']"

definition one_story :: "string \<Rightarrow> string \<Rightarrow> node" where
  "one_story t p = rss_document [rss_item t ''https://example.org/story'' p]"

definition one_down_host :: host where
  "one_down_host =
     example_host
       (example_parse
          [(''<rss>0</rss>'', one_story ''Story A'' ''Mon, 01 Jan 2024 00:00:00 GMT''),
           (''<rss>1</rss>'', one_story ''Story B'' ''Wed, 03 Jan 2024 00:00:00 GMT''),
           (''<rss>3</rss>'', one_story ''Story C'' ''Tue, 02 Jan 2024 00:00:00 GMT''),
           (''<rss>4</rss>'', one_story ''story a'' ''Tue, 02 Jan 2024 00:00:00 GMT'')])
       (example_net
          [(''https://api.allorigins.win/raw?url=https%3A%2F%2Ftechcrunch.com%2Fcategory%2Fartificial-intelligence%2Ffeed%2F'',
            ''<rss>0</rss>''),
           (''https://api.allorigins.win/raw?url=https%3A%2F%2Fwww.theverge.com%2Frss%2Fai-artificial-intelligence%2Findex.xml'',
            ''<rss>1</rss>''),
           (''https://corsproxy.io/?https%3A%2F%2Ffeeds.arstechnica.com%2Farstechnica%2Ftechnology-lab'',
            ''<rss>3</rss>''),
           (''https://api.allorigins.win/raw?url=https%3A%2F%2Fventurebeat.com%2Fcategory%2Fai%2Ffeed%2F'',
            ''<rss>4</rss>'')])
       False"

text \<open>
  \<open>apart_host\<close> is \<open>one_down_host\<close> with four stories that have four keys.
\<close>

definition apart_host :: host where
  "apart_host =
     example_host
       (example_parse
          [(''<rss>0</rss>'', one_story ''Story A'' ''Mon, 01 Jan 2024 00:00:00 GMT''),
           (''<rss>1</rss>'', one_story ''Story B'' ''Wed, 03 Jan 2024 00:00:00 GMT''),
           (''<rss>3</rss>'', one_story ''Story C'' ''Tue, 02 Jan 2024 00:00:00 GMT''),
           (''<rss>4</rss>'', one_story ''Story D'' ''Tue, 02 Jan 2024 00:00:00 GMT'')])
       (example_net
          [(''https://api.allorigins.win/raw?url=https%3A%2F%2Ftechcrunch.com%2Fcategory%2Fartificial-intelligence%2Ffeed%2F'',
            ''<rss>0</rss>''),
           (''https://api.allorigins.win/raw?url=https%3A%2F%2Fwww.theverge.com%2Frss%2Fai-artificial-intelligence%2Findex.xml'',
            ''<rss>1</rss>''),
           (''https://corsproxy.io/?https%3A%2F%2Ffeeds.arstechnica.com%2Farstechnica%2Ftechnology-lab'',
            ''<rss>3</rss>''),
           (''https://api.allorigins.win/raw?url=https%3A%2F%2Fventurebeat.com%2Fcategory%2Fai%2Ffeed%2F'',
            ''<rss>4</rss>'')])
       False"

definition initial_state :: hook_state where
  "initial_state = \<lparr>articles = [], loading = True, error = None, lastUpdated = None\<rparr>"

text \<open>An article of a source, without description.\<close>

definition story :: "feed_source \<Rightarrow> string \<Rightarrow> string \<Rightarrow> date \<Rightarrow> article" where
  "story src t l d =
     \<lparr>title = t, link = l, pubDate = d, description = [],
      source = name src,
      category = feed_source.category src,
      color = feed_source.color src\<rparr>"

section \<open>Properties of the feed parser\<close>

lemma push_article_Some:
  assumes "push_article h clk src k f = Some (a, k')"
  shows "title_text f = Some (title a) \<and> link_text f = Some (link a)
         \<and> title a \<noteq> [] \<and> link a \<noteq> []
         \<and> make_pubDate h clk k (date_text f) = (pubDate a, k')
         \<and> description a = slice0 200 (cleanDesc h (body_text f))
         \<and> source a = name src
         \<and> article.category a = feed_source.category src
         \<and> article.color a = feed_source.color src"
  using assms
  by (auto simp: push_article_def Let_def split: option.splits if_splits prod.splits)

lemma push_article_None: "(push_article h clk src k f = None) = (\<not> qualifies f)"
  by (auto simp: push_article_def qualifies_def truthy_def Let_def split: option.splits prod.splits)

lemma forEach_push_rel:
  assumes none: "\<And>k e. (f k e = None) = (\<not> q (g e))"
    and some: "\<And>k e a k'. f k e = Some (a, k') \<Longrightarrow> R (g e) a"
  shows "list_all2 R (filter q (map g es)) (forEach_push f k es)"
proof (induction es arbitrary: k)
  case Nil
  show ?case by simp
next
  case (Cons e es)
  show ?case
  proof (cases "f k e")
    case None
    with none have "\<not> q (g e)" by simp
    with None Cons.IH show ?thesis by simp
  next
    case (Some r)
    obtain a k' where r: "r = (a, k')" by (cases r)
    from Some none have "q (g e)" by (metis option.distinct(1))
    moreover from Some r some have "R (g e) a" by simp
    ultimately show ?thesis using Some r Cons.IH by simp
  qed
qed

lemma rss_articles_rel:
  "list_all2 (pushed h clk src) (rss_qualifying xml) (rss_articles h clk src xml)"
  unfolding rss_qualifying_def rss_articles_def
  by (rule forEach_push_rel) (auto simp: push_article_None pushed_def)

lemma atom_articles_rel:
  "list_all2 (pushed h clk src) (atom_qualifying xml) (atom_articles h clk src xml)"
  unfolding atom_qualifying_def atom_articles_def
  by (rule forEach_push_rel) (auto simp: push_article_None pushed_def)

lemma rss_articles_empty: "(rss_articles h clk src xml = []) = (rss_qualifying xml = [])"
  using rss_articles_rel [of h clk src xml] by (auto dest: list_all2_lengthD)

lemma parseRSSItems_cases:
  "parseRSSItems h clk x src =
     (if rss_qualifying (parseFromString h x) = []
      then take 8 (atom_articles h clk src (parseFromString h x))
      else take 8 (rss_articles h clk src (parseFromString h x)))"
proof (cases "rss_articles h clk src (parseFromString h x) = []")
  case True
  then show ?thesis
    using rss_articles_empty [of h clk src "parseFromString h x"]
    by (simp add: parseRSSItems_def Let_def)
next
  case False
  then show ?thesis
    using rss_articles_empty [of h clk src "parseFromString h x"]
    by (simp add: parseRSSItems_def Let_def)
qed

lemma parseRSSItems_rel:
  "list_all2 (pushed h clk src) (take 8 (qualifying (parseFromString h x)))
     (parseRSSItems h clk x src)"
  by (simp add: parseRSSItems_cases qualifying_def list_all2_takeI rss_articles_rel
      atom_articles_rel)

lemma list_all2_map_eq:
  "list_all2 (\<lambda>x y. f x = g y) xs ys \<Longrightarrow> map f xs = map g ys"
  by (induction xs ys rule: list_all2_induct) simp_all


text \<open>
  Claim C6. For every input text and source the parser returns at most 8 articles. It
  returns as many as there are qualifying elements, up to 8, and they are the first 8
  qualifying elements in document order: the titles and links of the output are those of
  \<open>take 8\<close> of the qualifying elements. So an input with more than 8 qualifying elements
  gives exactly the first 8.
\<close>

theorem parseRSSItems_cap:
  "length (parseRSSItems h clk x src) \<le> 8
   \<and> length (parseRSSItems h clk x src) = min 8 (length (qualifying (parseFromString h x)))
   \<and> map (\<lambda>a. (Some (title a), Some (link a))) (parseRSSItems h clk x src)
       = map (\<lambda>f. (title_text f, link_text f)) (take 8 (qualifying (parseFromString h x)))"
proof -
  let ?q = "take 8 (qualifying (parseFromString h x))"
  let ?out = "parseRSSItems h clk x src"
  have rel: "list_all2 (pushed h clk src) ?q ?out" by (rule parseRSSItems_rel)
  have len: "length ?out = length ?q" using list_all2_lengthD [OF rel] by simp
  have "list_all2 (\<lambda>f a. (title_text f, link_text f) = (Some (title a), Some (link a))) ?q ?out"
    using rel by (rule list_all2_mono) (auto simp: pushed_def dest: push_article_Some)
  then have "map (\<lambda>f. (title_text f, link_text f)) ?q = map (\<lambda>a. (Some (title a), Some (link a))) ?out"
    by (rule list_all2_map_eq)
  with len show ?thesis by simp
qed

theorem parseRSSItems_cap_witness:
  "length (qualifying (parseFromString (parser_host long_feed) ''<rss/>'')) = 10
   \<and> length (parseRSSItems (parser_host long_feed) example_clock ''<rss/>'' example_source) = 8
   \<and> map (\<lambda>a. (Some (title a), Some (link a)))
        (parseRSSItems (parser_host long_feed) example_clock ''<rss/>'' example_source)
      = map (\<lambda>f. (title_text f, link_text f))
          (take 8 (qualifying (parseFromString (parser_host long_feed) ''<rss/>'')))
   \<and> map title (parseRSSItems (parser_host long_feed) example_clock ''<rss/>'' example_source)
      = [''a'', ''b'', ''c'', ''d'', ''e'', ''f'', ''g'', ''h'']"
proof -
  have q: "length (qualifying (parseFromString (parser_host long_feed) ''<rss/>'')) = 10"
    by code_simp
  have t: "map title (parseRSSItems (parser_host long_feed) example_clock ''<rss/>'' example_source)
      = [''a'', ''b'', ''c'', ''d'', ''e'', ''f'', ''g'', ''h'']"
    by code_simp
  show ?thesis
    using parseRSSItems_cap [of "parser_host long_feed" example_clock "''<rss/>''" example_source] q t
    by simp
qed




text \<open>
  Claim C10. The RSS loop pushes nothing exactly when no \<^verbatim>\<open>item\<close> qualifies, also
  when the document has items and each lacks a title or a link; the parser then, and
  only then, runs the Atom loop. Its output is then the first 8 articles pushed for entries,
  and otherwise the first 8 articles pushed for items: never articles of both kinds.
\<close>

theorem parseRSSItems_dialect:
  "(rss_articles h clk src (parseFromString h x) = []) = (rss_qualifying (parseFromString h x) = [])
   \<and> (rss_qualifying (parseFromString h x) = []
      \<longrightarrow> parseRSSItems h clk x src = take 8 (atom_articles h clk src (parseFromString h x))
        \<and> list_all2 (\<lambda>f a. \<exists>k k'. push_article h clk src k f = Some (a, k'))
             (take 8 (atom_qualifying (parseFromString h x))) (parseRSSItems h clk x src))
   \<and> (rss_qualifying (parseFromString h x) \<noteq> []
      \<longrightarrow> parseRSSItems h clk x src = take 8 (rss_articles h clk src (parseFromString h x))
        \<and> list_all2 (\<lambda>f a. \<exists>k k'. push_article h clk src k f = Some (a, k'))
             (take 8 (rss_qualifying (parseFromString h x))) (parseRSSItems h clk x src))"
  using rss_articles_rel [of h clk src "parseFromString h x"]
    atom_articles_rel [of h clk src "parseFromString h x"]
  by (simp add: parseRSSItems_cases list_all2_takeI pushed_def [abs_def] rss_articles_empty)

theorem parseRSSItems_dialect_witness:
  "length (querySelectorAll (Tag ''item'') mixed_feed) = 1
   \<and> rss_qualifying (parseFromString (parser_host mixed_feed) ''<feed/>'') = []
   \<and> parseRSSItems (parser_host mixed_feed) example_clock ''<feed/>'' example_source
       = take 8 (atom_articles (parser_host mixed_feed) example_clock example_source
                  (parseFromString (parser_host mixed_feed) ''<feed/>''))
   \<and> map title (parseRSSItems (parser_host mixed_feed) example_clock ''<feed/>'' example_source)
       = [''First entry'', ''Second entry'']
   \<and> rss_qualifying (parseFromString (parser_host dated_feed) ''<rss/>'') \<noteq> []
   \<and> parseRSSItems (parser_host dated_feed) example_clock ''<rss/>'' example_source
       = take 8 (rss_articles (parser_host dated_feed) example_clock example_source
                  (parseFromString (parser_host dated_feed) ''<rss/>''))"
proof -
  have a: "length (querySelectorAll (Tag ''item'') mixed_feed) = 1" by code_simp
  have b: "rss_qualifying (parseFromString (parser_host mixed_feed) ''<feed/>'') = []"
    by code_simp
  have c: "map title (parseRSSItems (parser_host mixed_feed) example_clock ''<feed/>'' example_source)
       = [''First entry'', ''Second entry'']"
    by code_simp
  have d: "rss_qualifying (parseFromString (parser_host dated_feed) ''<rss/>'') \<noteq> []"
    by code_simp
  show ?thesis
    using parseRSSItems_dialect [of "parser_host mixed_feed" example_clock example_source "''<feed/>''"]
      parseRSSItems_dialect [of "parser_host dated_feed" example_clock example_source "''<rss/>''"]
      a b c d
    by simp
qed

text \<open>
  Claim C1, as amended. For each element the parser keeps: when the date text is missing
  or empty, the date of the article is a reading of the clock made during the parse;
  when it is not empty, the date is \<^verbatim>\<open>new Date\<close> of that text, the parsed time when
  the host parses it and the invalid date when it does not. The date is never
  \<^verbatim>\<open>null\<close>: \<open>pubDate\<close> is a \<open>date\<close> in every article.
\<close>

theorem parseRSSItems_pubDate:
  "list_all2
     (\<lambda>f a. case date_text f of
               None \<Rightarrow> (\<exists>k. pubDate a = Time (clk k))
             | Some s \<Rightarrow>
                 if s = [] then (\<exists>k. pubDate a = Time (clk k))
                 else pubDate a = (case Date_parse h s of None \<Rightarrow> InvalidDate | Some t \<Rightarrow> Time t))
     (take 8 (qualifying (parseFromString h x))) (parseRSSItems h clk x src)"
  using parseRSSItems_rel [of h clk src x]
proof (rule list_all2_mono)
  fix f a
  assume "pushed h clk src f a"
  then obtain k k' where "push_article h clk src k f = Some (a, k')"
    by (auto simp: pushed_def)
  then have m: "make_pubDate h clk k (date_text f) = (pubDate a, k')"
    by (simp add: push_article_Some)
  show "case date_text f of
               None \<Rightarrow> (\<exists>k. pubDate a = Time (clk k))
             | Some s \<Rightarrow>
                 if s = [] then (\<exists>k. pubDate a = Time (clk k))
                 else pubDate a = (case Date_parse h s of None \<Rightarrow> InvalidDate | Some t \<Rightarrow> Time t)"
  proof (cases "truthy (date_text f)")
    case True
    then show ?thesis
      using m by (auto simp: make_pubDate_def new_Date_def truthy_def split: option.splits)
  next
    case False
    then have "pubDate a = Time (clk k)"
      using m by (auto simp: make_pubDate_def truthy_def split: option.splits)
    then have "\<exists>j. pubDate a = Time (clk j)" by blast
    with False show ?thesis
      by (auto simp: truthy_def split: option.splits)
  qed
qed

theorem parseRSSItems_pubDate_witness:
  "map date_text (take 8 (qualifying (parseFromString (parser_host dated_feed) ''<rss/>'')))
     = [Some ''Mon, 01 Jan 2024 00:00:00 GMT'', Some ''soon'', None,
        Some ''Tue, 02 Jan 2024 00:00:00 GMT'']
   \<and> map pubDate (parseRSSItems (parser_host dated_feed) example_clock ''<rss/>'' example_source)
     = [Time 1704067200000, InvalidDate, Time (example_clock 0), Time 1704153600000]
   \<and> list_all2
     (\<lambda>f a. case date_text f of
               None \<Rightarrow> (\<exists>k. pubDate a = Time (example_clock k))
             | Some s \<Rightarrow>
                 if s = [] then (\<exists>k. pubDate a = Time (example_clock k))
                 else pubDate a = (case Date_parse (parser_host dated_feed) s of
                                     None \<Rightarrow> InvalidDate | Some t \<Rightarrow> Time t))
     (take 8 (qualifying (parseFromString (parser_host dated_feed) ''<rss/>'')))
     (parseRSSItems (parser_host dated_feed) example_clock ''<rss/>'' example_source)"
proof -
  have a: "map date_text (take 8 (qualifying (parseFromString (parser_host dated_feed) ''<rss/>'')))
     = [Some ''Mon, 01 Jan 2024 00:00:00 GMT'', Some ''soon'', None,
        Some ''Tue, 02 Jan 2024 00:00:00 GMT'']"
    by code_simp
  have b: "map pubDate (parseRSSItems (parser_host dated_feed) example_clock ''<rss/>'' example_source)
     = [Time 1704067200000, InvalidDate, Time (example_clock 0), Time 1704153600000]"
    by code_simp
  show ?thesis
    using parseRSSItems_pubDate [of example_clock "parser_host dated_feed" "''<rss/>''" example_source] a b
    by blast
qed

text \<open>
  Claim C1 as stated fails: the second item of \<open>dated_feed\<close> has the date text
  \<^verbatim>\<open>soon\<close>, which the host does not parse, and its article carries the invalid date,
  not a reading of the clock.
\<close>

theorem parseRSSItems_pubDate_counterexample:
  "map date_text (qualifying (parseFromString (parser_host dated_feed) ''<rss/>'')) ! 1 = Some ''soon''
   \<and> Date_parse (parser_host dated_feed) ''soon'' = None
   \<and> pubDate (parseRSSItems (parser_host dated_feed) example_clock ''<rss/>'' example_source ! 1)
       = InvalidDate
   \<and> \<not> (\<forall>a \<in> set (parseRSSItems (parser_host dated_feed) example_clock ''<rss/>'' example_source).
           isValid (pubDate a))"
proof -
  have a: "map date_text (qualifying (parseFromString (parser_host dated_feed) ''<rss/>'')) ! 1 = Some ''soon''"
    by code_simp
  have b: "Date_parse (parser_host dated_feed) ''soon'' = None"
    by code_simp
  have c: "map pubDate (parseRSSItems (parser_host dated_feed) example_clock ''<rss/>'' example_source)
     = [Time 1704067200000, InvalidDate, Time (example_clock 0), Time 1704153600000]"
    by code_simp
  have len: "length (parseRSSItems (parser_host dated_feed) example_clock ''<rss/>'' example_source) = 4"
    using arg_cong [OF c, of length] by simp
  have d: "pubDate (parseRSSItems (parser_host dated_feed) example_clock ''<rss/>'' example_source ! 1)
       = InvalidDate"
    using arg_cong [OF c, of "\<lambda>l. l ! 1"] len by simp
  have "parseRSSItems (parser_host dated_feed) example_clock ''<rss/>'' example_source ! 1
      \<in> set (parseRSSItems (parser_host dated_feed) example_clock ''<rss/>'' example_source)"
    using len by simp
  with d have e: "\<not> (\<forall>a \<in> set (parseRSSItems (parser_host dated_feed) example_clock ''<rss/>'' example_source).
           isValid (pubDate a))"
    by (metis isValid.simps(2))
  from a b d e show ?thesis by blast
qed


section \<open>Properties of the proxy fetcher\<close>

lemma tryProxies_eq:
  "tryProxies net ps u =
     ((case dropWhile (\<lambda>q. delivered (net q) = None) (map (\<lambda>p. p u) ps) of
         [] \<Rightarrow> None | q # _ \<Rightarrow> delivered (net q)),
      takeWhile (\<lambda>q. delivered (net q) = None) (map (\<lambda>p. p u) ps)
        @ take 1 (dropWhile (\<lambda>q. delivered (net q) = None) (map (\<lambda>p. p u) ps)))"
proof (induction ps)
  case Nil
  show ?case by simp
next
  case (Cons p ps)
  show ?case
  proof (cases "delivered (net (p u))")
    case None
    then show ?thesis
      using Cons.IH
      by (auto simp: delivered_def Let_def split: fetch_outcome.splits option.splits if_splits)
  next
    case (Some t)
    then show ?thesis
      by (auto simp: delivered_def Let_def split: fetch_outcome.splits option.splits if_splits prod.splits)
  qed
qed

text \<open>
  Claim C8, as amended. For every target the proxies are asked in order, one request
  each, up to and including the first one that delivers: that resolves with an
  \<^verbatim>\<open>ok\<close> response whose body is read. The function returns that body, and no later
  proxy is asked. A request that throws, a response that is not \<^verbatim>\<open>ok\<close> and a body
  that cannot be read all lead to the next proxy; when no proxy delivers, every proxy
  has been asked once and the result is \<^verbatim>\<open>null\<close>. The function is total: every
  exception is one of these outcomes, and none leaves it.
\<close>

theorem fetchWithProxy_first_success:
  "fetchWithProxy net u =
     (case dropWhile (\<lambda>q. delivered (net q) = None) (map (\<lambda>p. p u) CORS_PROXIES) of
        [] \<Rightarrow> None | q # _ \<Rightarrow> delivered (net q))
   \<and> requested net u =
       takeWhile (\<lambda>q. delivered (net q) = None) (map (\<lambda>p. p u) CORS_PROXIES)
         @ take 1 (dropWhile (\<lambda>q. delivered (net q) = None) (map (\<lambda>p. p u) CORS_PROXIES))
   \<and> prefix (requested net u) (map (\<lambda>p. p u) CORS_PROXIES)
   \<and> ((\<forall>q \<in> set (map (\<lambda>p. p u) CORS_PROXIES). delivered (net q) = None)
        \<longrightarrow> fetchWithProxy net u = None \<and> requested net u = map (\<lambda>p. p u) CORS_PROXIES)"
proof -
  let ?ps = "map (\<lambda>p. p u) CORS_PROXIES"
  let ?f = "\<lambda>q. delivered (net q) = None"
  have 1: "fetchWithProxy net u = (case dropWhile ?f ?ps of [] \<Rightarrow> None | q # _ \<Rightarrow> delivered (net q))"
    by (simp add: fetchWithProxy_def tryProxies_eq)
  have 2: "requested net u = takeWhile ?f ?ps @ take 1 (dropWhile ?f ?ps)"
    by (simp add: requested_def tryProxies_eq)
  have "takeWhile ?f ?ps @ take 1 (dropWhile ?f ?ps) @ drop 1 (dropWhile ?f ?ps) = ?ps"
    by simp
  then have 3: "prefix (requested net u) ?ps"
    unfolding 2 prefix_def by (metis append.assoc)
  have 4: "fetchWithProxy net u = None \<and> requested net u = ?ps" if "\<forall>q \<in> set ?ps. ?f q"
  proof -
    from that have d: "dropWhile ?f ?ps = []" by (rule iffD2 [OF dropWhile_eq_Nil_conv])
    from that have t: "takeWhile ?f ?ps = ?ps" by (rule iffD2 [OF takeWhile_eq_all_conv])
    show ?thesis unfolding 1 2 d t by simp
  qed
  from 1 2 3 4 show ?thesis by blast
qed

lemma example_proxy_urls:
  "map (\<lambda>p. p ''feed'') CORS_PROXIES =
     [''https://api.allorigins.win/raw?url=feed'', ''https://corsproxy.io/?feed'']"
  by code_simp

theorem fetchWithProxy_first_success_witness:
  "map (\<lambda>p. p ''feed'') CORS_PROXIES =
     [''https://api.allorigins.win/raw?url=feed'', ''https://corsproxy.io/?feed'']
   \<and> delivered (second_net ''https://api.allorigins.win/raw?url=feed'') = None
   \<and> delivered (second_net ''https://corsproxy.io/?feed'') = Some ''<rss/>''
   \<and> fetchWithProxy second_net ''feed'' = Some ''<rss/>''
   \<and> requested second_net ''feed''
       = [''https://api.allorigins.win/raw?url=feed'', ''https://corsproxy.io/?feed'']
   \<and> fetchWithProxy (\<lambda>q. Throws) ''feed'' = None
   \<and> requested (\<lambda>q. Throws) ''feed''
       = [''https://api.allorigins.win/raw?url=feed'', ''https://corsproxy.io/?feed'']"
proof -
  have a: "delivered (second_net ''https://api.allorigins.win/raw?url=feed'') = None"
    by (simp add: delivered_def second_net_def)
  have b: "delivered (second_net ''https://corsproxy.io/?feed'') = Some ''<rss/>''"
    by (simp add: delivered_def second_net_def)
  have c: "delivered ((\<lambda>q. Throws) q) = None" for q :: string
    by (simp add: delivered_def)
  show ?thesis
    using fetchWithProxy_first_success [of second_net "''feed''"]
      fetchWithProxy_first_success [of "\<lambda>q. Throws" "''feed''"] a b c
    by (simp add: example_proxy_urls)
qed

text \<open>
  Claim C8 as stated fails: on \<open>flaky_net\<close> the first proxy answers with a 2xx status,
  and the function still asks the second proxy and returns the body of the second.
\<close>

theorem fetchWithProxy_counterexample:
  "map (\<lambda>p. p ''feed'') CORS_PROXIES =
     [''https://api.allorigins.win/raw?url=feed'', ''https://corsproxy.io/?feed'']
   \<and> flaky_net ''https://api.allorigins.win/raw?url=feed'' = Resolves (Response True None)
   \<and> flaky_net ''https://corsproxy.io/?feed'' = Resolves (Response True (Some ''<rss/>''))
   \<and> fetchWithProxy flaky_net ''feed'' = Some ''<rss/>''
   \<and> requested flaky_net ''feed''
       = [''https://api.allorigins.win/raw?url=feed'', ''https://corsproxy.io/?feed'']"
  by (simp add: example_proxy_urls [unfolded CORS_PROXIES_def, simplified] fetchWithProxy_def requested_def CORS_PROXIES_def flaky_net_def)

section \<open>Properties of the aggregator\<close>

subsection \<open>Sorting, deduplication and the three ways a refresh ends\<close>

lemma set_binaryInsertionSort:
  "set (binaryInsertionSort cmp ws rest) = set ws \<union> set rest"
proof (induction rest arbitrary: ws)
  case Nil
  show ?case by simp
next
  case (Cons pivot rest)
  have "set (take k ws @ pivot # drop k ws) = insert pivot (set ws)" for k
    using set_append [of "take k ws" "drop k ws"] by (simp del: set_append) auto
  then show ?case using Cons.IH by (simp add: Let_def)
qed

lemma length_binaryInsertionSort:
  "length (binaryInsertionSort cmp ws rest) = length ws + length rest"
proof (induction rest arbitrary: ws)
  case Nil
  show ?case by simp
next
  case (Cons pivot rest)
  have "length (take k ws @ pivot # drop k ws) = Suc (length ws)" for k
    by simp
  then show ?case using Cons.IH by (simp add: Let_def)
qed

lemma countAndMakeRun_set:
  "set (fst (countAndMakeRun cmp xs)) = set xs"
proof (cases "(cmp, xs)" rule: countAndMakeRun.cases)
  case (1 c)
  then show ?thesis by simp
next
  case (2 c x)
  then show ?thesis by simp
next
  case (3 c x0 x1 rest)
  have "set (rev (take n ys) @ drop n ys) = set ys" for n and ys :: "'a list"
    using set_append [of "take n ys" "drop n ys"] by (simp del: set_append) auto
  then have "set (fst (countAndMakeRun c (x0 # x1 # rest))) = set (x0 # x1 # rest)"
    unfolding countAndMakeRun.simps Let_def by (simp only: fst_conv split: if_splits) simp
  with 3 show ?thesis by simp
qed

lemma countAndMakeRun_length:
  "length (fst (countAndMakeRun cmp xs)) = length xs"
proof (cases "(cmp, xs)" rule: countAndMakeRun.cases)
  case (1 c)
  then show ?thesis by simp
next
  case (2 c x)
  then show ?thesis by simp
next
  case (3 c x0 x1 rest)
  have "length (rev (take n ys) @ drop n ys) = length ys" for n and ys :: "'a list"
    by simp
  then have "length (fst (countAndMakeRun c (x0 # x1 # rest))) = length (x0 # x1 # rest)"
    unfolding countAndMakeRun.simps Let_def by (simp only: fst_conv split: if_splits) simp
  with 3 show ?thesis by simp
qed

lemma set_Array_sort: "set (Array_sort cmp xs) = set xs"
proof (cases "length xs < 2")
  case True
  then show ?thesis by (simp add: Array_sort_def)
next
  case False
  obtain ws n where r: "countAndMakeRun cmp xs = (ws, n)" by (cases "countAndMakeRun cmp xs")
  then have "set ws = set xs" using countAndMakeRun_set [of cmp xs] by simp
  moreover have "set (take n ws) \<union> set (drop n ws) = set ws"
    using set_append [of "take n ws" "drop n ws"] by simp
  ultimately show ?thesis
    using False r by (simp add: Array_sort_def set_binaryInsertionSort)
qed

lemma length_Array_sort: "length (Array_sort cmp xs) = length xs"
proof (cases "length xs < 2")
  case True
  then show ?thesis by (simp add: Array_sort_def)
next
  case False
  obtain ws n where r: "countAndMakeRun cmp xs = (ws, n)" by (cases "countAndMakeRun cmp xs")
  then have "length ws = length xs" using countAndMakeRun_length [of cmp xs] by simp
  then show ?thesis
    using False r by (simp add: Array_sort_def length_binaryInsertionSort)
qed

text \<open>
  When the comparator is the difference of a key \<open>f\<close> on the elements of the array, the
  result is in ascending order of \<open>f\<close>.
\<close>

lemma binarySearch_position:
  assumes "sorted (map f ws)"
    and "\<forall>e \<in> set ws. sortCompare cmp pivot e = f pivot - f e"
    and "left \<le> right" and "right \<le> length ws"
    and "\<forall>i < left. f (ws ! i) \<le> f pivot"
    and "\<forall>i. right \<le> i \<and> i < length ws \<longrightarrow> f pivot < f (ws ! i)"
  shows "binarySearch cmp pivot ws left right \<le> length ws
       \<and> (\<forall>i < binarySearch cmp pivot ws left right. f (ws ! i) \<le> f pivot)
       \<and> (\<forall>i. binarySearch cmp pivot ws left right \<le> i \<and> i < length ws \<longrightarrow> f pivot < (f (ws ! i) :: int))"
  using assms
proof (induction cmp pivot ws left right rule: binarySearch.induct)
  case (1 cmp pivot ws left right)
  show ?case
  proof (cases "left < right")
    case False
    have "binarySearch cmp pivot ws left right = left"
      using False by (simp add: binarySearch.simps [of cmp pivot ws left right])
    moreover from False "1.prems" have "left = right" by simp
    ultimately show ?thesis using "1.prems" by simp
  next
    case True
    define mid where "mid = left + (right - left) div 2"
    have mid: "left \<le> mid" "mid < right" using True by (simp_all add: mid_def)
    then have midlen: "mid < length ws" using "1.prems" by simp
    then have c: "sortCompare cmp pivot (ws ! mid) = f pivot - f (ws ! mid)"
      using "1.prems"(2) by simp
    have srt: "i \<le> j \<Longrightarrow> j < length ws \<Longrightarrow> f (ws ! i) \<le> f (ws ! j)" for i j
      using "1.prems"(1) by (simp add: sorted_iff_nth_mono)
    show ?thesis
    proof (cases "sortCompare cmp pivot (ws ! mid) < 0")
      case lt: True
      have eq: "binarySearch cmp pivot ws left right = binarySearch cmp pivot ws left mid"
        using True lt by (simp add: binarySearch.simps [of cmp pivot ws left right] mid_def Let_def)
      have "\<forall>i. mid \<le> i \<and> i < length ws \<longrightarrow> f pivot < f (ws ! i)"
      proof (intro allI impI)
        fix i assume "mid \<le> i \<and> i < length ws"
        then have "f (ws ! mid) \<le> f (ws ! i)" using srt by simp
        with lt c show "f pivot < f (ws ! i)" by simp
      qed
      with "1.IH"(1) [OF True mid_def lt "1.prems"(1,2)] mid midlen "1.prems"(5)
      show ?thesis unfolding eq by simp
    next
      case ge: False
      have eq: "binarySearch cmp pivot ws left right = binarySearch cmp pivot ws (mid + 1) right"
        using True ge by (simp add: binarySearch.simps [of cmp pivot ws left right] mid_def Let_def)
      have "\<forall>i < mid + 1. f (ws ! i) \<le> f pivot"
      proof (intro allI impI)
        fix i assume "i < mid + 1"
        then have "f (ws ! i) \<le> f (ws ! mid)" using srt midlen by simp
        with ge c show "f (ws ! i) \<le> f pivot" by simp
      qed
      with "1.IH"(2) [OF True mid_def ge "1.prems"(1,2)] mid "1.prems"(4,6)
      show ?thesis unfolding eq by simp
    qed
  qed
qed

lemma sorted_insert_at:
  assumes "sorted (map f ws)" and "p \<le> length ws"
    and "\<forall>i < p. f (ws ! i) \<le> f pivot"
    and "\<forall>i. p \<le> i \<and> i < length ws \<longrightarrow> f pivot < (f (ws ! i) :: int)"
  shows "sorted (map f (take p ws @ pivot # drop p ws))"
proof -
  have t: "\<forall>x \<in> set (take p ws). f x \<le> f pivot"
    using assms(2,3) by (auto simp: in_set_conv_nth)
  have d: "\<forall>y \<in> set (drop p ws). f pivot < f y"
    using assms(2,4) by (auto simp: in_set_conv_nth)
  have s: "sorted (map f (take p ws) @ map f (drop p ws))"
    using assms(1) by (simp flip: map_append)
  then have "sorted (map f (take p ws))" and "sorted (map f (drop p ws))"
    and "\<forall>x \<in> set (take p ws). \<forall>y \<in> set (drop p ws). f x \<le> f y"
    by (auto simp: sorted_append)
  with t d show ?thesis
    by (fastforce simp: sorted_append)
qed

lemma sorted_binaryInsertionSort:
  assumes "sorted (map f ws)"
    and "\<forall>x \<in> set ws \<union> set rest. \<forall>y \<in> set ws \<union> set rest. sortCompare cmp x y = f x - f y"
  shows "sorted (map f (binaryInsertionSort cmp ws rest))"
  using assms
proof (induction rest arbitrary: ws)
  case Nil
  then show ?case by simp
next
  case (Cons pivot rest)
  let ?p = "binarySearch cmp pivot ws 0 (length ws)"
  have "\<forall>e \<in> set ws. sortCompare cmp pivot e = f pivot - f e"
    using Cons.prems(2) by simp
  with Cons.prems(1)
  have pos: "?p \<le> length ws \<and> (\<forall>i < ?p. f (ws ! i) \<le> f pivot)
       \<and> (\<forall>i. ?p \<le> i \<and> i < length ws \<longrightarrow> f pivot < f (ws ! i))"
    by (intro binarySearch_position) simp_all
  then have "sorted (map f (take ?p ws @ pivot # drop ?p ws))"
    using Cons.prems(1) by (intro sorted_insert_at) simp_all
  moreover have "set (take ?p ws @ pivot # drop ?p ws) = insert pivot (set ws)"
    using set_append [of "take ?p ws" "drop ?p ws"] by (simp del: set_append) auto
  ultimately have "sorted (map f (binaryInsertionSort cmp (take ?p ws @ pivot # drop ?p ws) rest))"
    using Cons.prems(2) by (intro Cons.IH) auto
  then show ?case by (simp add: Let_def)
qed

lemma run_more_le: "run_more cmp desc prev xs \<le> length xs"
  by (induction xs arbitrary: prev) (auto simp: Let_def)

lemma run_more_ascending:
  assumes "\<forall>x \<in> set (prev # xs). \<forall>y \<in> set (prev # xs). sortCompare cmp x y = f x - f y"
  shows "sorted (map f (prev # take (run_more cmp False prev xs) xs))"
  using assms
proof (induction xs arbitrary: prev)
  case Nil
  show ?case by simp
next
  case (Cons x xs)
  have c: "sortCompare cmp x prev = f x - f prev" using Cons.prems by simp
  show ?case
  proof (cases "sortCompare cmp x prev < 0")
    case True
    then show ?thesis by (simp add: Let_def)
  next
    case False
    have "sorted (map f (x # take (run_more cmp False x xs) xs))"
      using Cons.prems by (intro Cons.IH) auto
    with False c show ?thesis by (auto simp: Let_def)
  qed
qed

lemma run_more_descending:
  assumes "\<forall>x \<in> set (prev # xs). \<forall>y \<in> set (prev # xs). sortCompare cmp x y = f x - f y"
  shows "sorted (map f (rev (prev # take (run_more cmp True prev xs) xs)))"
  using assms
proof (induction xs arbitrary: prev)
  case Nil
  show ?case by simp
next
  case (Cons x xs)
  have c: "sortCompare cmp x prev = f x - f prev" using Cons.prems by simp
  show ?case
  proof (cases "0 \<le> sortCompare cmp x prev")
    case True
    then show ?thesis by (simp add: Let_def)
  next
    case False
    have ih: "sorted (map f (rev (x # take (run_more cmp True x xs) xs)))"
      using Cons.prems by (intro Cons.IH) auto
    have "f x < f prev" using False c by simp
    moreover have "\<forall>y \<in> set (x # take (run_more cmp True x xs) xs). f y \<le> f x"
      using ih by (auto simp: sorted_append rev_map)
    ultimately show ?thesis
      using ih False by (fastforce simp: Let_def sorted_append rev_map)
  qed
qed

lemma sorted_Array_sort_keys:
  assumes "\<forall>x \<in> set xs. \<forall>y \<in> set xs. sortCompare cmp x y = f x - f y"
  shows "sorted (map f (Array_sort cmp xs))"
proof (cases "(cmp, xs)" rule: countAndMakeRun.cases)
  case (1 c)
  then show ?thesis by (simp add: Array_sort_def)
next
  case (2 c x)
  then show ?thesis by (simp add: Array_sort_def)
next
  case (3 c x0 x1 rest)
  define desc where "desc = (sortCompare cmp x1 x0 < 0)"
  define n where "n = 2 + run_more cmp desc x1 rest"
  define ws where "ws = (if desc then rev (take n xs) @ drop n xs else xs)"
  have run: "countAndMakeRun cmp xs = (ws, n)"
    using 3 by (simp add: ws_def n_def desc_def Let_def)
  have tk: "take n xs = x0 # x1 # take (run_more cmp desc x1 rest) rest"
    using 3 by (simp add: n_def)
  have cons1: "\<forall>x \<in> set (x1 # rest). \<forall>y \<in> set (x1 # rest). sortCompare cmp x y = f x - f y"
    using assms 3 by simp
  have c10: "sortCompare cmp x1 x0 = f x1 - f x0" using assms 3 by simp
  have nlen: "n \<le> length xs" using run_more_le [of cmp desc x1 rest] 3 by (simp add: n_def)
  have pre: "sorted (map f (take n ws))" and dr: "drop n ws = drop n xs"
  proof -
    show "sorted (map f (take n ws))"
    proof (cases desc)
      case True
      have "sorted (map f (rev (x1 # take (run_more cmp True x1 rest) rest)))"
        using cons1 by (rule run_more_descending)
      moreover have "\<forall>y \<in> set (x1 # take (run_more cmp True x1 rest) rest). f y \<le> f x1"
        using calculation by (auto simp: sorted_append rev_map)
      moreover have "f x1 < f x0" using True c10 by (simp add: desc_def)
      ultimately have "sorted (map f (rev (take n xs)))"
        using True by (fastforce simp: tk sorted_append rev_map)
      moreover have "take n ws = rev (take n xs)"
        using True nlen by (simp add: ws_def)
      ultimately show ?thesis by simp
    next
      case False
      have "sorted (map f (x1 # take (run_more cmp False x1 rest) rest))"
        using cons1 by (rule run_more_ascending)
      moreover have "f x0 \<le> f x1" using False c10 by (simp add: desc_def)
      ultimately have "sorted (map f (take n xs))"
        using False by (auto simp: tk)
      then show ?thesis using False by (simp add: ws_def)
    qed
    show "drop n ws = drop n xs"
      using nlen by (simp add: ws_def)
  qed
  have sets: "set (take n ws) \<union> set (drop n ws) = set xs"
    using set_append [of "take n ws" "drop n ws"] countAndMakeRun_set [of cmp xs] run by simp
  have "sorted (map f (binaryInsertionSort cmp (take n ws) (drop n ws)))"
    using pre assms sets by (intro sorted_binaryInsertionSort) auto
  moreover have "\<not> length xs < 2" using 3 by simp
  ultimately show ?thesis using run by (simp add: Array_sort_def)
qed

lemma date_ge_valueOf:
  "isValid a \<Longrightarrow> isValid b \<Longrightarrow> date_ge a b = (valueOf b \<le> valueOf a)"
  by (cases a; cases b) simp_all

lemma sortCompare_compareFn:
  "isValid (pubDate x) \<Longrightarrow> isValid (pubDate y) \<Longrightarrow>
   sortCompare compareFn x y = - valueOf (pubDate x) - (- valueOf (pubDate y))"
  by (cases "pubDate x"; cases "pubDate y") (simp_all add: sortCompare_def compareFn_def)

lemma sorted_Array_sort:
  assumes "\<forall>a \<in> set xs. isValid (pubDate a)"
  shows "sorted_wrt (\<lambda>a b. date_ge (pubDate a) (pubDate b)) (Array_sort compareFn xs)"
proof -
  let ?f = "\<lambda>a. - valueOf (pubDate a)"
  have "sorted (map ?f (Array_sort compareFn xs))"
    using assms by (intro sorted_Array_sort_keys) (simp add: sortCompare_compareFn)
  then have "sorted_wrt (\<lambda>a b. ?f a \<le> ?f b) (Array_sort compareFn xs)"
    by (simp add: sorted_map)
  moreover have "\<forall>a \<in> set (Array_sort compareFn xs). isValid (pubDate a)"
    using assms by (simp add: set_Array_sort)
  ultimately show ?thesis
    by (auto simp: date_ge_valueOf elim!: sorted_wrt_mono_rel [rotated])
qed

text \<open>
  The sort on four articles, the third with an invalid date: the run is the first two
  articles, reversed; the third is inserted after them, and the fourth before them.
\<close>

lemma Array_sort_invalid_date:
  "map title (Array_sort compareFn
     [story techcrunch ''a'' [] (Time 1704067200000),
      story techcrunch ''b'' [] (Time 1704153600000),
      story techcrunch ''c'' [] InvalidDate,
      story techcrunch ''d'' [] (Time 1704240000000)])
   = [''d'', ''b'', ''a'', ''c'']"
  by code_simp

lemma set_dedup_filter: "set (dedup_filter seen xs) \<subseteq> set xs"
  by (induction xs arbitrary: seen) (auto simp: Let_def)

lemma keys_dedup_filter:
  "dedup_key ` set (dedup_filter seen xs) = dedup_key ` set xs - seen"
  by (induction xs arbitrary: seen) (auto simp: Let_def)

lemma distinct_dedup_filter: "distinct (map dedup_key (dedup_filter seen xs))"
proof (induction xs arbitrary: seen)
  case Nil
  show ?case by simp
next
  case (Cons a xs)
  show ?case
    using Cons.IH keys_dedup_filter [of "insert (dedup_key a) seen" xs]
    by (auto simp: Let_def)
qed

lemma subseq_dedup_filter: "subseq (dedup_filter seen xs) xs"
  by (induction xs arbitrary: seen) (auto simp: Let_def)

lemma dedup_filter_Nil: "(dedup_filter seen xs = []) = (dedup_key ` set xs \<subseteq> seen)"
  by (induction xs arbitrary: seen) (auto simp: Let_def)

lemma find_dedup_filter_seen:
  "k \<in> seen \<Longrightarrow> find (\<lambda>b. dedup_key b = k) (dedup_filter seen xs) = None"
  using keys_dedup_filter [of seen xs] by (auto simp: find_None_iff)

lemma find_dedup_filter:
  "k \<notin> seen \<Longrightarrow>
   find (\<lambda>b. dedup_key b = k) (dedup_filter seen xs) = find (\<lambda>b. dedup_key b = k) xs"
proof (induction xs arbitrary: seen)
  case Nil
  show ?case by simp
next
  case (Cons a xs)
  show ?case
  proof (cases "dedup_key a = k")
    case True
    with Cons.prems show ?thesis by (simp add: Let_def)
  next
    case False
    with Cons show ?thesis by (simp add: Let_def)
  qed
qed

lemma sorted_wrt_dedup_filter:
  "sorted_wrt R xs \<Longrightarrow> sorted_wrt R (dedup_filter seen xs)"
proof (induction xs arbitrary: seen)
  case Nil
  show ?case by simp
next
  case (Cons a xs)
  then show ?case
    using set_dedup_filter [of "insert (dedup_key a) seen" xs]
    by (auto simp: Let_def)
qed

lemma flattened_eq:
  "flattened h = concat (map (\<lambda>(i, src). source_task h i src) (enumerate 0 RSS_SOURCES))"
proof -
  have "filter isFulfilled (map (\<lambda>(i, src). Fulfilled (source_task h i src)) xs)
        = map (\<lambda>(i, src). Fulfilled (source_task h i src)) xs" for xs :: "(nat \<times> feed_source) list"
    by (induction xs) auto
  then show ?thesis
    by (simp add: flattened_def allSettled_def comp_def case_prod_unfold)
qed

lemma unique_Nil: "(unique h = []) = (flattened h = [])"
proof -
  have "(unique h = []) = (allArticles h = [])"
    by (auto simp: unique_def dedup_filter_Nil)
  also have "\<dots> = (flattened h = [])"
    using length_Array_sort [of compareFn "flattened h"] by (auto simp: allArticles_def)
  finally show ?thesis .
qed

lemma fetchNews_live:
  "\<not> host_fault h \<Longrightarrow> unique h \<noteq> [] \<Longrightarrow>
   fetchNews h s = s\<lparr>loading := False, error := None, articles := unique h,
                     lastUpdated := Some (Time (final_clock h 0))\<rparr>"
  by (simp add: fetchNews_def try_block_def Let_def)

lemma fetchNews_empty:
  "\<not> host_fault h \<Longrightarrow> unique h = [] \<Longrightarrow>
   fetchNews h s = s\<lparr>loading := False, error := None,
                     articles := getFallbackArticles (final_clock h) 0,
                     lastUpdated := Some (Time (final_clock h 12))\<rparr>"
  by (simp add: fetchNews_def try_block_def Let_def)

lemma fetchNews_fault:
  "host_fault h \<Longrightarrow>
   fetchNews h s = s\<lparr>loading := False,
                     error := Some ''Could not load live feeds. Showing curated articles.'',
                     articles := getFallbackArticles (final_clock h) 0,
                     lastUpdated := Some (Time (final_clock h 12))\<rparr>"
  by (simp add: fetchNews_def try_block_def catch_block_def Let_def)

subsection \<open>The example hosts\<close>

lemma encoded_urls:
  "encodeURIComponent ''https://techcrunch.com/category/artificial-intelligence/feed/''
     = ''https%3A%2F%2Ftechcrunch.com%2Fcategory%2Fartificial-intelligence%2Ffeed%2F''"
  "encodeURIComponent ''https://www.theverge.com/rss/ai-artificial-intelligence/index.xml''
     = ''https%3A%2F%2Fwww.theverge.com%2Frss%2Fai-artificial-intelligence%2Findex.xml''"
  "encodeURIComponent ''https://www.technologyreview.com/feed/''
     = ''https%3A%2F%2Fwww.technologyreview.com%2Ffeed%2F''"
  "encodeURIComponent ''https://feeds.arstechnica.com/arstechnica/technology-lab''
     = ''https%3A%2F%2Ffeeds.arstechnica.com%2Farstechnica%2Ftechnology-lab''"
  "encodeURIComponent ''https://venturebeat.com/category/ai/feed/''
     = ''https%3A%2F%2Fventurebeat.com%2Fcategory%2Fai%2Ffeed%2F''"
  by code_simp+

lemmas source_defs =
  techcrunch_def the_verge_def mit_tech_review_def ars_technica_def venturebeat_def

lemma proxy_urls_distinct:
  "distinct (concat (map (\<lambda>src. map (\<lambda>p. p (url src)) CORS_PROXIES) RSS_SOURCES))"
  by (simp add: RSS_SOURCES_def source_defs CORS_PROXIES_def encoded_urls)

lemma RSS_SOURCES_nth:
  "RSS_SOURCES ! 0 = techcrunch" "RSS_SOURCES ! 1 = the_verge" "RSS_SOURCES ! Suc 0 = the_verge"
  "RSS_SOURCES ! 2 = mit_tech_review" "RSS_SOURCES ! 3 = ars_technica"
  "RSS_SOURCES ! 4 = venturebeat" "length RSS_SOURCES = 5"
  by (simp_all add: RSS_SOURCES_def)

lemma flattened_sources:
  "flattened h
     = source_task h 0 techcrunch @ source_task h 1 the_verge @ source_task h 2 mit_tech_review
       @ source_task h 3 ars_technica @ source_task h 4 venturebeat"
  by (simp add: flattened_eq RSS_SOURCES_def eval_nat_numeral)

lemma length_source_task: "length (source_task h i src) \<le> 8"
  by (simp add: source_task_def parseRSSItems_def Let_def split: option.splits)

lemma length_flattened: "length (flattened h) \<le> 40"
  using length_source_task [of h 0 techcrunch] length_source_task [of h 1 the_verge]
    length_source_task [of h 2 mit_tech_review] length_source_task [of h 3 ars_technica]
    length_source_task [of h 4 venturebeat]
  by (simp add: flattened_sources)

lemma solo_fetches:
  "fetchWithProxy (fetch (solo_host doc)) (url techcrunch) = Some ''<rss>0</rss>''"
  "fetchWithProxy (fetch (solo_host doc)) (url the_verge) = None"
  "fetchWithProxy (fetch (solo_host doc)) (url mit_tech_review) = None"
  "fetchWithProxy (fetch (solo_host doc)) (url ars_technica) = None"
  "fetchWithProxy (fetch (solo_host doc)) (url venturebeat) = None"
  by (simp_all add: source_defs CORS_PROXIES_def fetchWithProxy_def encoded_urls solo_host_def
      example_host_def example_net_def)

lemma solo_flattened:
  "flattened (solo_host doc) = parseRSSItems (solo_host doc) example_clock ''<rss>0</rss>'' techcrunch"
proof -
  have c: "parse_clock (solo_host doc) i = example_clock" for i
    by (simp add: solo_host_def example_host_def)
  show ?thesis
    by (simp add: flattened_sources source_task_def truthy_def c solo_fetches)
qed

lemma one_down_fetches:
  "fetchWithProxy (fetch one_down_host) (url techcrunch) = Some ''<rss>0</rss>''"
  "fetchWithProxy (fetch one_down_host) (url the_verge) = Some ''<rss>1</rss>''"
  "fetchWithProxy (fetch one_down_host) (url mit_tech_review) = None"
  "fetchWithProxy (fetch one_down_host) (url ars_technica) = Some ''<rss>3</rss>''"
  "fetchWithProxy (fetch one_down_host) (url venturebeat) = Some ''<rss>4</rss>''"
  by (simp_all add: source_defs CORS_PROXIES_def fetchWithProxy_def encoded_urls
      one_down_host_def example_host_def example_net_def)

lemma apart_fetches:
  "fetchWithProxy (fetch apart_host) (url techcrunch) = Some ''<rss>0</rss>''"
  "fetchWithProxy (fetch apart_host) (url the_verge) = Some ''<rss>1</rss>''"
  "fetchWithProxy (fetch apart_host) (url mit_tech_review) = None"
  "fetchWithProxy (fetch apart_host) (url ars_technica) = Some ''<rss>3</rss>''"
  "fetchWithProxy (fetch apart_host) (url venturebeat) = Some ''<rss>4</rss>''"
  by (simp_all add: source_defs CORS_PROXIES_def fetchWithProxy_def encoded_urls
      apart_host_def example_host_def example_net_def)

subsection \<open>Fallback, exception, deduplication\<close>

lemma length_getFallbackArticles: "length (getFallbackArticles clk k) = 12"
  by (simp add: getFallbackArticles_def)

text \<open>
  Claim C2. The article list a refresh sets is the fallback list or the non-empty live
  list, never a mix. Whenever no exception is raised and the deduplicated aggregate is
  empty, no source has contributed an article, the list set is exactly what
  \<^verbatim>\<open>getFallbackArticles\<close> returns (12 articles, so at least 10), and the error message
  stays unset.
\<close>

theorem fetchNews_fallback:
  "(articles (fetchNews h s) = getFallbackArticles (final_clock h) 0
      \<or> (unique h \<noteq> [] \<and> articles (fetchNews h s) = unique h))
   \<and> (\<not> host_fault h \<and> unique h = []
        \<longrightarrow> articles (fetchNews h s) = getFallbackArticles (final_clock h) 0
          \<and> 10 \<le> length (articles (fetchNews h s))
          \<and> error (fetchNews h s) = None
          \<and> flattened h = [])"
proof -
  have 1: "articles (fetchNews h s) = getFallbackArticles (final_clock h) 0
      \<or> (unique h \<noteq> [] \<and> articles (fetchNews h s) = unique h)"
  proof (cases "host_fault h")
    case True
    then show ?thesis by (simp add: fetchNews_fault)
  next
    case False
    then show ?thesis
      by (cases "unique h = []") (simp_all add: fetchNews_empty fetchNews_live)
  qed
  have 2: "articles (fetchNews h s) = getFallbackArticles (final_clock h) 0
          \<and> 10 \<le> length (articles (fetchNews h s))
          \<and> error (fetchNews h s) = None
          \<and> flattened h = []" if "\<not> host_fault h" and "unique h = []"
    using that unique_Nil [of h]
    by (simp add: fetchNews_empty length_getFallbackArticles)
  from 1 2 show ?thesis by blast
qed

lemma down_host_unique: "unique down_host = []"
  by (simp add: unique_Nil flattened_sources source_task_def fetchWithProxy_def
      CORS_PROXIES_def down_host_def example_host_def example_net_def truthy_def)

theorem fetchNews_fallback_witness:
  "\<not> host_fault down_host \<and> unique down_host = []
   \<and> articles (fetchNews down_host initial_state) = getFallbackArticles (final_clock down_host) 0
   \<and> length (articles (fetchNews down_host initial_state)) = 12
   \<and> error (fetchNews down_host initial_state) = None"
proof -
  have a: "\<not> host_fault down_host" by (simp add: down_host_def example_host_def)
  show ?thesis
    using fetchNews_fallback [of down_host initial_state] a down_host_unique
    by (simp add: length_getFallbackArticles)
qed

text \<open>
  Claim C9. When the fan-out and merge raise an exception, the refresh sets the error
  message, sets the article list to the fallback list and sets \<open>lastUpdated\<close> to a fresh
  reading of the clock; and whatever happens, \<open>loading\<close> is false when the refresh ends.
\<close>

theorem fetchNews_exception:
  "(host_fault h
      \<longrightarrow> error (fetchNews h s) = Some ''Could not load live feeds. Showing curated articles.''
        \<and> articles (fetchNews h s) = getFallbackArticles (final_clock h) 0
        \<and> lastUpdated (fetchNews h s) = Some (Time (final_clock h 12)))
   \<and> loading (fetchNews h s) = False"
proof (cases "host_fault h")
  case True
  then show ?thesis by (simp add: fetchNews_fault)
next
  case False
  then show ?thesis
    by (cases "unique h = []") (simp_all add: fetchNews_empty fetchNews_live)
qed

theorem fetchNews_exception_witness:
  "host_fault fault_host
   \<and> loading initial_state = True
   \<and> error (fetchNews fault_host initial_state)
       = Some ''Could not load live feeds. Showing curated articles.''
   \<and> articles (fetchNews fault_host initial_state) = getFallbackArticles (final_clock fault_host) 0
   \<and> lastUpdated (fetchNews fault_host initial_state) = Some (Time (example_clock 12))
   \<and> loading (fetchNews fault_host initial_state) = False
   \<and> loading (fetchNews down_host initial_state) = False"
proof -
  have a: "host_fault fault_host" by (simp add: fault_host_def example_host_def)
  have b: "final_clock fault_host = example_clock" by (simp add: fault_host_def example_host_def)
  show ?thesis
    using fetchNews_exception [of fault_host initial_state]
      fetchNews_exception [of down_host initial_state] a b
    by (simp add: initial_state_def)
qed

lemma find_sorted_wrt:
  assumes "sorted_wrt R xs" and "\<forall>x \<in> set xs. R x x" and "a \<in> set xs" and "P a"
  shows "\<exists>b. find P xs = Some b \<and> R b a"
  using assms
proof (induction xs)
  case Nil
  then show ?case by simp
next
  case (Cons x xs)
  show ?case
  proof (cases "P x")
    case True
    with Cons.prems show ?thesis by auto
  next
    case False
    with Cons show ?thesis by auto
  qed
qed

lemma find_in_set: "find P xs = Some b \<Longrightarrow> b \<in> set xs \<and> P b"
  by (auto simp: find_Some_iff)

text \<open>
  Claim C4, as amended. After a refresh with a live result, no two articles of the list
  have the same key (the lower-cased title cut to 50 code units); the list is a
  subsequence of the sequence the sort returns, and for every article of that sequence
  the article kept for its key is the first one with that key in the sequence. When every
  article fetched in the round, the ones dropped as duplicates included, has a valid
  date, the article kept is at least as recent as every article it stands for.
\<close>

theorem fetchNews_dedup:
  assumes "\<not> host_fault h" and "unique h \<noteq> []"
  shows "articles (fetchNews h s) = unique h
       \<and> distinct (map dedup_key (articles (fetchNews h s)))
       \<and> subseq (articles (fetchNews h s)) (allArticles h)
       \<and> (\<forall>a \<in> set (allArticles h).
             find (\<lambda>b. dedup_key b = dedup_key a) (articles (fetchNews h s))
               = find (\<lambda>b. dedup_key b = dedup_key a) (allArticles h))
       \<and> ((\<forall>a \<in> set (flattened h). isValid (pubDate a))
            \<longrightarrow> (\<forall>a \<in> set (allArticles h). \<exists>b \<in> set (articles (fetchNews h s)).
                   dedup_key b = dedup_key a \<and> date_ge (pubDate b) (pubDate a)))"
proof -
  have 1: "articles (fetchNews h s) = unique h"
    using assms by (simp add: fetchNews_live)
  have 2: "distinct (map dedup_key (unique h))"
    by (simp add: unique_def distinct_dedup_filter)
  have 3: "subseq (unique h) (allArticles h)"
    by (simp add: unique_def subseq_dedup_filter)
  have 4: "find (\<lambda>b. dedup_key b = k) (unique h) = find (\<lambda>b. dedup_key b = k) (allArticles h)"
    for k by (simp add: unique_def find_dedup_filter)
  have 5: "\<exists>b \<in> set (unique h). dedup_key b = dedup_key a \<and> date_ge (pubDate b) (pubDate a)"
    if valid: "\<forall>a \<in> set (flattened h). isValid (pubDate a)" and a: "a \<in> set (allArticles h)" for a
  proof -
    let ?R = "\<lambda>a b. date_ge (pubDate a) (pubDate b)"
    have v: "\<forall>x \<in> set (allArticles h). isValid (pubDate x)"
      using valid by (simp add: allArticles_def set_Array_sort)
    have "sorted_wrt ?R (allArticles h)"
      unfolding allArticles_def using valid by (rule sorted_Array_sort)
    moreover have "\<forall>x \<in> set (allArticles h). ?R x x"
      using v by (simp add: date_ge_valueOf)
    ultimately obtain b where b: "find (\<lambda>b. dedup_key b = dedup_key a) (allArticles h) = Some b"
      and r: "?R b a"
      using find_sorted_wrt [of ?R "allArticles h" a "\<lambda>b. dedup_key b = dedup_key a"] a by auto
    from b have "find (\<lambda>b. dedup_key b = dedup_key a) (unique h) = Some b" by (simp add: 4)
    then have "b \<in> set (unique h) \<and> dedup_key b = dedup_key a" by (rule find_in_set)
    with r show ?thesis by blast
  qed
  from 1 2 3 4 5 show ?thesis by simp
qed

lemma story_fields: "title (story src t l d) = t" "pubDate (story src t l d) = d"
  "source (story src t l d) = name src"
  by (simp_all add: story_def)

lemma duplicate_parse:
  "parseRSSItems (solo_host duplicate_feed) example_clock ''<rss>0</rss>'' techcrunch
     = [story techcrunch ''OpenAI announces a new model for reasoning and code generation today''
          ''https://example.org/1'' (Time 1704067200000),
        story techcrunch ''OPENAI ANNOUNCES A NEW MODEL FOR REASONING AND CODE GENERATION - update''
          ''https://example.org/2'' (Time 1704153600000),
        story techcrunch ''Another story'' ''https://example.org/3'' (Time 1704240000000)]"
  by code_simp

lemma duplicate_sorted:
  "Array_sort compareFn
     [story techcrunch ''OpenAI announces a new model for reasoning and code generation today''
          ''https://example.org/1'' (Time 1704067200000),
        story techcrunch ''OPENAI ANNOUNCES A NEW MODEL FOR REASONING AND CODE GENERATION - update''
          ''https://example.org/2'' (Time 1704153600000),
        story techcrunch ''Another story'' ''https://example.org/3'' (Time 1704240000000)]
   = [story techcrunch ''Another story'' ''https://example.org/3'' (Time 1704240000000),
      story techcrunch ''OPENAI ANNOUNCES A NEW MODEL FOR REASONING AND CODE GENERATION - update''
          ''https://example.org/2'' (Time 1704153600000),
      story techcrunch ''OpenAI announces a new model for reasoning and code generation today''
          ''https://example.org/1'' (Time 1704067200000)]"
  by code_simp

lemma duplicate_keys:
  "map dedup_key
     [story techcrunch ''Another story'' ''https://example.org/3'' (Time 1704240000000),
      story techcrunch ''OPENAI ANNOUNCES A NEW MODEL FOR REASONING AND CODE GENERATION - update''
          ''https://example.org/2'' (Time 1704153600000),
      story techcrunch ''OpenAI announces a new model for reasoning and code generation today''
          ''https://example.org/1'' (Time 1704067200000)]
   = [''another story'', ''openai announces a new model for reasoning and cod'',
      ''openai announces a new model for reasoning and cod'']"
  by code_simp

lemma duplicate_unique:
  "unique (solo_host duplicate_feed)
     = [story techcrunch ''Another story'' ''https://example.org/3'' (Time 1704240000000),
        story techcrunch ''OPENAI ANNOUNCES A NEW MODEL FOR REASONING AND CODE GENERATION - update''
          ''https://example.org/2'' (Time 1704153600000)]"
  using duplicate_keys
  by (simp add: unique_def allArticles_def solo_flattened duplicate_parse duplicate_sorted Let_def)

lemma solo_host_fields:
  "\<not> host_fault (solo_host doc)" "final_clock (solo_host doc) = example_clock"
  by (simp_all add: solo_host_def example_host_def)

theorem fetchNews_dedup_witness:
  "\<not> host_fault (solo_host duplicate_feed)
   \<and> unique (solo_host duplicate_feed) \<noteq> []
   \<and> map dedup_key (allArticles (solo_host duplicate_feed))
       = [''another story'', ''openai announces a new model for reasoning and cod'',
          ''openai announces a new model for reasoning and cod'']
   \<and> map pubDate (allArticles (solo_host duplicate_feed))
       = [Time 1704240000000, Time 1704153600000, Time 1704067200000]
   \<and> articles (fetchNews (solo_host duplicate_feed) initial_state)
       = [story techcrunch ''Another story'' ''https://example.org/3'' (Time 1704240000000),
          story techcrunch ''OPENAI ANNOUNCES A NEW MODEL FOR REASONING AND CODE GENERATION - update''
            ''https://example.org/2'' (Time 1704153600000)]
   \<and> distinct (map dedup_key (articles (fetchNews (solo_host duplicate_feed) initial_state)))
   \<and> subseq (articles (fetchNews (solo_host duplicate_feed) initial_state))
        (allArticles (solo_host duplicate_feed))
   \<and> list_all (\<lambda>a. isValid (pubDate a)) (flattened (solo_host duplicate_feed))
   \<and> list_all (\<lambda>a. list_ex (\<lambda>b. dedup_key b = dedup_key a \<and> date_ge (pubDate b) (pubDate a))
                      (articles (fetchNews (solo_host duplicate_feed) initial_state)))
        (allArticles (solo_host duplicate_feed))"
proof -
  have u: "unique (solo_host duplicate_feed) \<noteq> []" by (simp add: duplicate_unique)
  have k: "map dedup_key (allArticles (solo_host duplicate_feed))
       = [''another story'', ''openai announces a new model for reasoning and cod'',
          ''openai announces a new model for reasoning and cod'']"
    using duplicate_keys by (simp add: allArticles_def solo_flattened duplicate_parse duplicate_sorted)
  have d: "map pubDate (allArticles (solo_host duplicate_feed))
       = [Time 1704240000000, Time 1704153600000, Time 1704067200000]"
    by (simp add: allArticles_def solo_flattened duplicate_parse duplicate_sorted story_fields)
  have v: "\<forall>a \<in> set (flattened (solo_host duplicate_feed)). isValid (pubDate a)"
    by (simp add: solo_flattened duplicate_parse story_fields)
  then have l: "list_all (\<lambda>a. isValid (pubDate a)) (flattened (solo_host duplicate_feed))"
    by (simp add: list_all_iff)
  from fetchNews_dedup [OF solo_host_fields(1) u, of initial_state]
  have a: "articles (fetchNews (solo_host duplicate_feed) initial_state) = unique (solo_host duplicate_feed)"
    and b: "distinct (map dedup_key (articles (fetchNews (solo_host duplicate_feed) initial_state)))"
    and c: "subseq (articles (fetchNews (solo_host duplicate_feed) initial_state))
        (allArticles (solo_host duplicate_feed))"
    and r: "(\<forall>a \<in> set (flattened (solo_host duplicate_feed)). isValid (pubDate a))
            \<longrightarrow> (\<forall>a \<in> set (allArticles (solo_host duplicate_feed)).
                   \<exists>b \<in> set (articles (fetchNews (solo_host duplicate_feed) initial_state)).
                     dedup_key b = dedup_key a \<and> date_ge (pubDate b) (pubDate a))"
    by blast+
  from r v have e: "list_all (\<lambda>a. list_ex (\<lambda>b. dedup_key b = dedup_key a \<and> date_ge (pubDate b) (pubDate a))
                      (articles (fetchNews (solo_host duplicate_feed) initial_state)))
        (allArticles (solo_host duplicate_feed))"
    by (simp add: list_all_iff list_ex_iff)
  have a': "articles (fetchNews (solo_host duplicate_feed) initial_state)
       = [story techcrunch ''Another story'' ''https://example.org/3'' (Time 1704240000000),
          story techcrunch ''OPENAI ANNOUNCES A NEW MODEL FOR REASONING AND CODE GENERATION - update''
            ''https://example.org/2'' (Time 1704153600000)]"
    using a by (simp only: duplicate_unique)
  from solo_host_fields(1) [of duplicate_feed] u k d a' b c l e
  show ?thesis by (intro conjI)
qed

lemma stale_parse:
  "parseRSSItems (solo_host stale_feed) example_clock ''<rss>0</rss>'' techcrunch
     = [story techcrunch ''Same title'' ''https://example.org/1'' (Time 1704067200000),
        story techcrunch ''Misdated story'' ''https://example.org/2'' InvalidDate,
        story techcrunch ''SAME TITLE'' ''https://example.org/3'' (Time 1704240000000)]"
  by code_simp

lemma stale_sorted:
  "Array_sort compareFn
     [story techcrunch ''Same title'' ''https://example.org/1'' (Time 1704067200000),
      story techcrunch ''Misdated story'' ''https://example.org/2'' InvalidDate,
      story techcrunch ''SAME TITLE'' ''https://example.org/3'' (Time 1704240000000)]
   = [story techcrunch ''Same title'' ''https://example.org/1'' (Time 1704067200000),
      story techcrunch ''Misdated story'' ''https://example.org/2'' InvalidDate,
      story techcrunch ''SAME TITLE'' ''https://example.org/3'' (Time 1704240000000)]"
  by code_simp

lemma stale_keys:
  "map dedup_key
     [story techcrunch ''Same title'' ''https://example.org/1'' (Time 1704067200000),
      story techcrunch ''Misdated story'' ''https://example.org/2'' InvalidDate,
      story techcrunch ''SAME TITLE'' ''https://example.org/3'' (Time 1704240000000)]
   = [''same title'', ''misdated story'', ''same title'']"
  by code_simp

lemma stale_unique:
  "unique (solo_host stale_feed)
     = [story techcrunch ''Same title'' ''https://example.org/1'' (Time 1704067200000),
        story techcrunch ''Misdated story'' ''https://example.org/2'' InvalidDate]"
  using stale_keys
  by (simp add: unique_def allArticles_def solo_flattened stale_parse stale_sorted Let_def)

text \<open>
  Claim C4 as stated fails: the article kept for a key is the first one with that key in
  the sequence the sort returns, and that one need not be the more recent. In
  \<open>stale_feed\<close> a story whose date text does not parse stands between two stories with
  the same key. The comparator answers \<^verbatim>\<open>NaN\<close> for it, the sort leaves the three
  articles in the order of the feed, and the refresh keeps the story of 1 January and
  drops the one of 3 January.
\<close>

theorem fetchNews_dedup_counterexample:
  "\<not> host_fault (solo_host stale_feed)
   \<and> map (\<lambda>a. (title a, pubDate a)) (flattened (solo_host stale_feed))
       = [(''Same title'', Time 1704067200000), (''Misdated story'', InvalidDate),
          (''SAME TITLE'', Time 1704240000000)]
   \<and> map (\<lambda>a. (dedup_key a, pubDate a)) (allArticles (solo_host stale_feed))
       = [(''same title'', Time 1704067200000), (''misdated story'', InvalidDate),
          (''same title'', Time 1704240000000)]
   \<and> map (\<lambda>a. (title a, pubDate a)) (articles (fetchNews (solo_host stale_feed) initial_state))
       = [(''Same title'', Time 1704067200000), (''Misdated story'', InvalidDate)]
   \<and> \<not> list_ex (\<lambda>b. date_ge (pubDate b) (Time 1704240000000))
         (articles (fetchNews (solo_host stale_feed) initial_state))"
proof -
  have ne: "unique (solo_host stale_feed) \<noteq> []" by (simp add: stale_unique)
  have a: "articles (fetchNews (solo_host stale_feed) initial_state) = unique (solo_host stale_feed)"
    using ne by (simp add: fetchNews_live solo_host_fields)
  have k: "map (\<lambda>a. (dedup_key a, pubDate a)) (allArticles (solo_host stale_feed))
       = [(''same title'', Time 1704067200000), (''misdated story'', InvalidDate),
          (''same title'', Time 1704240000000)]"
    using stale_keys by (simp add: allArticles_def solo_flattened stale_parse stale_sorted story_fields)
  have f: "map (\<lambda>a. (title a, pubDate a)) (flattened (solo_host stale_feed))
       = [(''Same title'', Time 1704067200000), (''Misdated story'', InvalidDate),
          (''SAME TITLE'', Time 1704240000000)]"
    by (simp add: solo_flattened stale_parse story_fields)
  have r: "map (\<lambda>a. (title a, pubDate a)) (articles (fetchNews (solo_host stale_feed) initial_state))
       = [(''Same title'', Time 1704067200000), (''Misdated story'', InvalidDate)]"
    by (simp add: a stale_unique story_fields)
  have n: "\<not> list_ex (\<lambda>b. date_ge (pubDate b) (Time 1704240000000))
         (articles (fetchNews (solo_host stale_feed) initial_state))"
    by (simp add: a stale_unique story_fields)
  from f k r n solo_host_fields(1) [of stale_feed] show ?thesis by (intro conjI)
qed

subsection \<open>Order\<close>

text \<open>
  Claim C5, as amended. When every article fetched in the round, the ones dropped as
  duplicates included, has a valid date, the non-empty live list a refresh sets is in
  non-increasing order of \<open>pubDate\<close>.
\<close>

theorem fetchNews_sorted:
  assumes "\<not> host_fault h" and "unique h \<noteq> []"
    and "\<forall>a \<in> set (flattened h). isValid (pubDate a)"
  shows "sorted_wrt (\<lambda>a b. date_ge (pubDate a) (pubDate b)) (articles (fetchNews h s))"
proof -
  have "sorted_wrt (\<lambda>a b. date_ge (pubDate a) (pubDate b)) (allArticles h)"
    unfolding allArticles_def using assms(3) by (rule sorted_Array_sort)
  then have "sorted_wrt (\<lambda>a b. date_ge (pubDate a) (pubDate b)) (unique h)"
    unfolding unique_def by (rule sorted_wrt_dedup_filter)
  then show ?thesis using assms by (simp add: fetchNews_live)
qed

theorem fetchNews_sorted_witness:
  "\<not> host_fault (solo_host duplicate_feed)
   \<and> unique (solo_host duplicate_feed) \<noteq> []
   \<and> list_all (\<lambda>a. isValid (pubDate a)) (flattened (solo_host duplicate_feed))
   \<and> map pubDate (flattened (solo_host duplicate_feed))
       = [Time 1704067200000, Time 1704153600000, Time 1704240000000]
   \<and> map pubDate (articles (fetchNews (solo_host duplicate_feed) initial_state))
       = [Time 1704240000000, Time 1704153600000]
   \<and> sorted_wrt (\<lambda>a b. date_ge (pubDate a) (pubDate b))
        (articles (fetchNews (solo_host duplicate_feed) initial_state))"
proof -
  have u: "unique (solo_host duplicate_feed) \<noteq> []" by (simp add: duplicate_unique)
  have v: "\<forall>a \<in> set (flattened (solo_host duplicate_feed)). isValid (pubDate a)"
    by (simp add: solo_flattened duplicate_parse story_fields)
  then have l: "list_all (\<lambda>a. isValid (pubDate a)) (flattened (solo_host duplicate_feed))"
    by (simp add: list_all_iff)
  have f: "map pubDate (flattened (solo_host duplicate_feed))
       = [Time 1704067200000, Time 1704153600000, Time 1704240000000]"
    by (simp add: solo_flattened duplicate_parse story_fields)
  have a: "map pubDate (articles (fetchNews (solo_host duplicate_feed) initial_state))
       = [Time 1704240000000, Time 1704153600000]"
    using u by (simp add: fetchNews_live solo_host_fields duplicate_unique story_fields)
  from fetchNews_sorted [OF solo_host_fields(1) u v, of initial_state] u l f a
    solo_host_fields(1) [of duplicate_feed]
  show ?thesis by blast
qed

lemma dated_parse:
  "parseRSSItems (solo_host dated_feed) example_clock ''<rss>0</rss>'' techcrunch
     = [story techcrunch ''Older story'' ''https://example.org/1'' (Time 1704067200000),
        story techcrunch ''Misdated story'' ''https://example.org/2'' InvalidDate,
        story techcrunch ''Undated story'' ''https://example.org/3'' (Time 1704300000000),
        story techcrunch ''Last story'' ''https://example.org/4'' (Time 1704153600000)]"
  by code_simp

lemma dated_sorted:
  "dedup_filter {} (Array_sort compareFn
     [story techcrunch ''Older story'' ''https://example.org/1'' (Time 1704067200000),
      story techcrunch ''Misdated story'' ''https://example.org/2'' InvalidDate,
      story techcrunch ''Undated story'' ''https://example.org/3'' (Time 1704300000000),
      story techcrunch ''Last story'' ''https://example.org/4'' (Time 1704153600000)])
   = [story techcrunch ''Older story'' ''https://example.org/1'' (Time 1704067200000),
      story techcrunch ''Misdated story'' ''https://example.org/2'' InvalidDate,
      story techcrunch ''Undated story'' ''https://example.org/3'' (Time 1704300000000),
      story techcrunch ''Last story'' ''https://example.org/4'' (Time 1704153600000)]"
  by code_simp

text \<open>
  Claim C5 as stated fails: the feed \<open>dated_feed\<close> has an item whose date text does not
  parse. Its article carries the invalid date, the comparator answers \<^verbatim>\<open>NaN\<close> for it,
  and the list set by the refresh starts with the oldest story. With an invalid date in
  it, a list of two or more articles is in non-increasing order in no arrangement.
\<close>

theorem fetchNews_sorted_counterexample:
  "\<not> host_fault (solo_host dated_feed)
   \<and> map (\<lambda>a. (title a, pubDate a)) (articles (fetchNews (solo_host dated_feed) initial_state))
       = [(''Older story'', Time 1704067200000), (''Misdated story'', InvalidDate),
          (''Undated story'', Time 1704300000000), (''Last story'', Time 1704153600000)]
   \<and> \<not> sorted_wrt (\<lambda>a b. date_ge (pubDate a) (pubDate b))
         (articles (fetchNews (solo_host dated_feed) initial_state))"
proof -
  have u: "unique (solo_host dated_feed)
     = [story techcrunch ''Older story'' ''https://example.org/1'' (Time 1704067200000),
        story techcrunch ''Misdated story'' ''https://example.org/2'' InvalidDate,
        story techcrunch ''Undated story'' ''https://example.org/3'' (Time 1704300000000),
        story techcrunch ''Last story'' ''https://example.org/4'' (Time 1704153600000)]"
    by (simp add: unique_def allArticles_def solo_flattened dated_parse dated_sorted)
  then have ne: "unique (solo_host dated_feed) \<noteq> []" by simp
  have a: "articles (fetchNews (solo_host dated_feed) initial_state) = unique (solo_host dated_feed)"
    using ne by (simp add: fetchNews_live solo_host_fields)
  show ?thesis
    by (simp add: a u solo_host_fields story_fields)
qed

lemma hidden_parse:
  "parseRSSItems (solo_host hidden_feed) example_clock ''<rss>0</rss>'' techcrunch
     = [story techcrunch ''Same title'' ''https://example.org/1'' (Time 1704067200000),
        story techcrunch ''SAME TITLE'' ''https://example.org/2'' InvalidDate,
        story techcrunch ''Other story'' ''https://example.org/3'' (Time 1704240000000)]"
  by code_simp

lemma hidden_sorted:
  "dedup_filter {} (Array_sort compareFn
     [story techcrunch ''Same title'' ''https://example.org/1'' (Time 1704067200000),
      story techcrunch ''SAME TITLE'' ''https://example.org/2'' InvalidDate,
      story techcrunch ''Other story'' ''https://example.org/3'' (Time 1704240000000)])
   = [story techcrunch ''Same title'' ''https://example.org/1'' (Time 1704067200000),
      story techcrunch ''Other story'' ''https://example.org/3'' (Time 1704240000000)]"
  by code_simp

text \<open>
  Valid dates on the articles of the list alone do not give the order. In \<open>hidden_feed\<close>
  the story whose date text does not parse is dropped as a duplicate, after the sort has
  left the articles in the order of the feed: the list set holds two articles with valid
  dates, the older one first.
\<close>

lemma hidden_date_unsorted:
  "\<not> host_fault (solo_host hidden_feed)
   \<and> map pubDate (flattened (solo_host hidden_feed))
       = [Time 1704067200000, InvalidDate, Time 1704240000000]
   \<and> map (\<lambda>a. (title a, pubDate a)) (articles (fetchNews (solo_host hidden_feed) initial_state))
       = [(''Same title'', Time 1704067200000), (''Other story'', Time 1704240000000)]
   \<and> list_all (\<lambda>a. isValid (pubDate a)) (articles (fetchNews (solo_host hidden_feed) initial_state))
   \<and> \<not> sorted_wrt (\<lambda>a b. date_ge (pubDate a) (pubDate b))
         (articles (fetchNews (solo_host hidden_feed) initial_state))"
proof -
  have u: "unique (solo_host hidden_feed)
     = [story techcrunch ''Same title'' ''https://example.org/1'' (Time 1704067200000),
        story techcrunch ''Other story'' ''https://example.org/3'' (Time 1704240000000)]"
    by (simp add: unique_def allArticles_def solo_flattened hidden_parse hidden_sorted)
  then have ne: "unique (solo_host hidden_feed) \<noteq> []" by simp
  have a: "articles (fetchNews (solo_host hidden_feed) initial_state) = unique (solo_host hidden_feed)"
    using ne by (simp add: fetchNews_live solo_host_fields)
  show ?thesis
    by (simp add: a u solo_host_fields story_fields solo_flattened hidden_parse)
qed

subsection \<open>Isolation of a failing source\<close>

lemma tryProxies_cong:
  "(\<forall>p \<in> set ps. net' (p u) = net (p u)) \<Longrightarrow> tryProxies net' ps u = tryProxies net ps u"
  by (induction ps) (simp_all add: Let_def)

lemma fetchWithProxy_cong:
  "(\<forall>p \<in> set CORS_PROXIES. net' (p u) = net (p u)) \<Longrightarrow> fetchWithProxy net' u = fetchWithProxy net u"
  using tryProxies_cong [of CORS_PROXIES net' u net] by (simp add: fetchWithProxy_def)

lemma push_article_fetch_update:
  "push_article (h\<lparr>fetch := net'\<rparr>) clk src k f = push_article h clk src k f"
proof -
  have "cleanDesc (h\<lparr>fetch := net'\<rparr>) d = cleanDesc h d" for d
    by (simp add: cleanDesc_def Let_def)
  moreover have "make_pubDate (h\<lparr>fetch := net'\<rparr>) clk k p = make_pubDate h clk k p" for p
    by (simp add: make_pubDate_def new_Date_def split: option.splits)
  ultimately show ?thesis by (simp add: push_article_def Let_def split: option.splits)
qed

lemma parseRSSItems_fetch_update:
  "parseRSSItems (h\<lparr>fetch := net'\<rparr>) clk x src = parseRSSItems h clk x src"
  by (simp add: parseRSSItems_def rss_articles_def atom_articles_def push_article_fetch_update
      Let_def)

lemma source_task_cong:
  assumes "\<forall>p \<in> set CORS_PROXIES. net' (p (url src)) = fetch h (p (url src))"
  shows "source_task (h\<lparr>fetch := net'\<rparr>) i src = source_task h i src"
proof -
  have "fetchWithProxy (fetch (h\<lparr>fetch := net'\<rparr>)) (url src) = fetchWithProxy (fetch h) (url src)"
    using fetchWithProxy_cong [OF assms] by simp
  then show ?thesis
    by (simp add: source_task_def parseRSSItems_fetch_update Let_def split: option.splits)
qed

lemma source_task_Nil:
  "fetchWithProxy (fetch h) (url src) = None \<Longrightarrow> source_task h i src = []"
  "fetchWithProxy (fetch h) (url src) = Some x \<Longrightarrow> parseRSSItems h (parse_clock h i) x src = []
     \<Longrightarrow> source_task h i src = []"
  by (simp_all add: source_task_def truthy_def)

lemma flattened_by_index:
  "flattened h = concat (map (\<lambda>i. source_task h i (RSS_SOURCES ! i)) [0..<length RSS_SOURCES])"
proof -
  have "enumerate 0 xs = map (\<lambda>i. (i, xs ! i)) [0..<length xs]" for xs :: "feed_source list"
    by (rule nth_equalityI) (simp_all add: nth_enumerate_eq)
  then show ?thesis by (simp add: flattened_eq comp_def)
qed

lemma concat_map_skip:
  "f j = [] \<Longrightarrow> concat (map f (filter (\<lambda>i. i \<noteq> j) is)) = concat (map f is)"
  by (induction "is") auto

lemma dedup_filter_distinct:
  "distinct (map dedup_key xs) \<Longrightarrow> dedup_key ` set xs \<inter> seen = {} \<Longrightarrow> dedup_filter seen xs = xs"
proof (induction xs arbitrary: seen)
  case Nil
  show ?case by simp
next
  case (Cons a xs)
  from Cons.prems have "dedup_key ` set xs \<inter> insert (dedup_key a) seen = {}" by auto
  with Cons show ?case by (auto simp: Let_def)
qed

lemma distinct_keys_sorted:
  assumes "distinct (map dedup_key xs)"
  shows "distinct (map dedup_key (Array_sort cmp xs))"
proof -
  have "card (set (map dedup_key (Array_sort cmp xs))) = card (set (map dedup_key xs))"
    by (simp add: set_Array_sort)
  also have "\<dots> = length (map dedup_key xs)" using assms by (rule distinct_card)
  also have "\<dots> = length (map dedup_key (Array_sort cmp xs))" by (simp add: length_Array_sort)
  finally show ?thesis by (rule card_distinct)
qed

text \<open>
  Claim C3, as amended. A source whose proxies are exhausted, or whose feed gives no
  article, contributes the empty list. The result of another source depends on the
  network only through the proxy URLs of that source (which differ from source to source,
  lemma \<open>proxy_urls_distinct\<close>), so the failure leaves it unchanged. When one source
  contributes nothing and every other source contributes at least one article, the
  refresh sets the live list and no error: the list is not empty, is made of articles of
  those sources, and holds an article with the key of each of their articles. It holds
  all of their articles when no two of them have the same key.
\<close>

theorem source_isolation:
  assumes nofault: "\<not> host_fault h" and j: "j < length RSS_SOURCES"
    and down: "source_task h j (RSS_SOURCES ! j) = []"
    and up: "\<forall>i < length RSS_SOURCES. i \<noteq> j \<longrightarrow> source_task h i (RSS_SOURCES ! i) \<noteq> []"
  shows "(\<forall>i src. fetchWithProxy (fetch h) (url src) = None \<longrightarrow> source_task h i src = [])
       \<and> (\<forall>i src x. fetchWithProxy (fetch h) (url src) = Some x
             \<and> parseRSSItems h (parse_clock h i) x src = [] \<longrightarrow> source_task h i src = [])
       \<and> (\<forall>net'. (\<forall>i < length RSS_SOURCES. i \<noteq> j \<longrightarrow>
                     (\<forall>p \<in> set CORS_PROXIES.
                        net' (p (url (RSS_SOURCES ! i))) = fetch h (p (url (RSS_SOURCES ! i)))))
            \<longrightarrow> (\<forall>i < length RSS_SOURCES. i \<noteq> j \<longrightarrow>
                   source_task (h\<lparr>fetch := net'\<rparr>) i (RSS_SOURCES ! i)
                     = source_task h i (RSS_SOURCES ! i)))
       \<and> flattened h
           = concat (map (\<lambda>i. source_task h i (RSS_SOURCES ! i))
                       (filter (\<lambda>i. i \<noteq> j) [0..<length RSS_SOURCES]))
       \<and> articles (fetchNews h s) = unique h
       \<and> articles (fetchNews h s) \<noteq> []
       \<and> error (fetchNews h s) = None
       \<and> set (articles (fetchNews h s)) \<subseteq> set (flattened h)
       \<and> dedup_key ` set (articles (fetchNews h s)) = dedup_key ` set (flattened h)
       \<and> (distinct (map dedup_key (flattened h))
            \<longrightarrow> set (articles (fetchNews h s)) = set (flattened h))"
proof -
  have 1: "\<forall>i src. fetchWithProxy (fetch h) (url src) = None \<longrightarrow> source_task h i src = []"
    by (simp add: source_task_Nil)
  have 2: "\<forall>i src x. fetchWithProxy (fetch h) (url src) = Some x
             \<and> parseRSSItems h (parse_clock h i) x src = [] \<longrightarrow> source_task h i src = []"
    by (simp add: source_task_Nil)
  have 3: "\<forall>net'. (\<forall>i < length RSS_SOURCES. i \<noteq> j \<longrightarrow>
                     (\<forall>p \<in> set CORS_PROXIES.
                        net' (p (url (RSS_SOURCES ! i))) = fetch h (p (url (RSS_SOURCES ! i)))))
            \<longrightarrow> (\<forall>i < length RSS_SOURCES. i \<noteq> j \<longrightarrow>
                   source_task (h\<lparr>fetch := net'\<rparr>) i (RSS_SOURCES ! i)
                     = source_task h i (RSS_SOURCES ! i))"
    by (simp add: source_task_cong)
  have 4: "flattened h
           = concat (map (\<lambda>i. source_task h i (RSS_SOURCES ! i))
                       (filter (\<lambda>i. i \<noteq> j) [0..<length RSS_SOURCES]))"
    using down by (simp add: flattened_by_index concat_map_skip)
  obtain i where i: "i < length RSS_SOURCES" "i \<noteq> j"
  proof (cases "j = 0")
    case True
    have "(1::nat) < length RSS_SOURCES" by (simp add: RSS_SOURCES_def)
    with True that show ?thesis by simp
  next
    case False
    have "(0::nat) < length RSS_SOURCES" by (simp add: RSS_SOURCES_def)
    with False that show ?thesis by metis
  qed
  with up have "source_task h i (RSS_SOURCES ! i) \<noteq> []" by simp
  then have "flattened h \<noteq> []"
    using i by (auto simp: flattened_by_index)
  then have ne: "unique h \<noteq> []" by (simp add: unique_Nil)
  have 5: "articles (fetchNews h s) = unique h" and 7: "error (fetchNews h s) = None"
    using nofault ne by (simp_all add: fetchNews_live)
  have 6: "articles (fetchNews h s) \<noteq> []"
    using ne by (simp add: 5)
  have 8: "set (articles (fetchNews h s)) \<subseteq> set (flattened h)"
    unfolding 5 using set_dedup_filter [of "{}" "allArticles h"]
    by (simp add: unique_def allArticles_def set_Array_sort)
  have 9: "dedup_key ` set (articles (fetchNews h s)) = dedup_key ` set (flattened h)"
    unfolding 5 using keys_dedup_filter [of "{}" "allArticles h"]
    by (simp add: unique_def allArticles_def set_Array_sort)
  have 10: "distinct (map dedup_key (flattened h))
            \<longrightarrow> set (articles (fetchNews h s)) = set (flattened h)"
  proof
    assume "distinct (map dedup_key (flattened h))"
    then have "distinct (map dedup_key (allArticles h))"
      unfolding allArticles_def by (rule distinct_keys_sorted)
    then have "unique h = allArticles h"
      by (simp add: unique_def dedup_filter_distinct)
    then show "set (articles (fetchNews h s)) = set (flattened h)"
      unfolding 5 by (simp add: allArticles_def set_Array_sort)
  qed
  show ?thesis
    by (intro conjI) (fact 1 2 3 4 5 6 7 8 9 10)+
qed

lemma one_down_fields:
  "\<not> host_fault one_down_host" "parse_clock one_down_host i = example_clock"
  by (simp_all add: one_down_host_def example_host_def)

lemma one_down_parses:
  "parseRSSItems one_down_host example_clock ''<rss>0</rss>'' techcrunch
     = [story techcrunch ''Story A'' ''https://example.org/story'' (Time 1704067200000)]"
  "parseRSSItems one_down_host example_clock ''<rss>1</rss>'' the_verge
     = [story the_verge ''Story B'' ''https://example.org/story'' (Time 1704240000000)]"
  "parseRSSItems one_down_host example_clock ''<rss>3</rss>'' ars_technica
     = [story ars_technica ''Story C'' ''https://example.org/story'' (Time 1704153600000)]"
  "parseRSSItems one_down_host example_clock ''<rss>4</rss>'' venturebeat
     = [story venturebeat ''story a'' ''https://example.org/story'' (Time 1704153600000)]"
  by code_simp+

lemma one_down_tasks:
  "source_task one_down_host i techcrunch
     = [story techcrunch ''Story A'' ''https://example.org/story'' (Time 1704067200000)]"
  "source_task one_down_host i the_verge
     = [story the_verge ''Story B'' ''https://example.org/story'' (Time 1704240000000)]"
  "source_task one_down_host i mit_tech_review = []"
  "source_task one_down_host i ars_technica
     = [story ars_technica ''Story C'' ''https://example.org/story'' (Time 1704153600000)]"
  "source_task one_down_host i venturebeat
     = [story venturebeat ''story a'' ''https://example.org/story'' (Time 1704153600000)]"
  by (simp_all add: source_task_def truthy_def one_down_fields one_down_parses one_down_fetches)

lemma one_down_unique:
  "dedup_filter {} (Array_sort compareFn
     [story techcrunch ''Story A'' ''https://example.org/story'' (Time 1704067200000),
      story the_verge ''Story B'' ''https://example.org/story'' (Time 1704240000000),
      story ars_technica ''Story C'' ''https://example.org/story'' (Time 1704153600000),
      story venturebeat ''story a'' ''https://example.org/story'' (Time 1704153600000)])
   = [story the_verge ''Story B'' ''https://example.org/story'' (Time 1704240000000),
      story ars_technica ''Story C'' ''https://example.org/story'' (Time 1704153600000),
      story venturebeat ''story a'' ''https://example.org/story'' (Time 1704153600000)]"
  by code_simp

lemma all_less_5: "(\<forall>i<5. P i) = (P 0 \<and> P 1 \<and> P 2 \<and> P 3 \<and> P (4::nat))"
proof
  assume "\<forall>i<5. P i"
  then show "P 0 \<and> P 1 \<and> P 2 \<and> P 3 \<and> P 4" by simp
next
  assume r: "P 0 \<and> P 1 \<and> P 2 \<and> P 3 \<and> P 4"
  show "\<forall>i<5. P i"
  proof (intro allI impI)
    fix i :: nat
    assume "i < 5"
    then have "i = 0 \<or> i = 1 \<or> i = 2 \<or> i = 3 \<or> i = 4" by arith
    with r show "P i" by auto
  qed
qed

lemma apart_fields:
  "\<not> host_fault apart_host" "parse_clock apart_host i = example_clock"
  by (simp_all add: apart_host_def example_host_def)

lemma apart_parses:
  "parseRSSItems apart_host example_clock ''<rss>0</rss>'' techcrunch
     = [story techcrunch ''Story A'' ''https://example.org/story'' (Time 1704067200000)]"
  "parseRSSItems apart_host example_clock ''<rss>1</rss>'' the_verge
     = [story the_verge ''Story B'' ''https://example.org/story'' (Time 1704240000000)]"
  "parseRSSItems apart_host example_clock ''<rss>3</rss>'' ars_technica
     = [story ars_technica ''Story C'' ''https://example.org/story'' (Time 1704153600000)]"
  "parseRSSItems apart_host example_clock ''<rss>4</rss>'' venturebeat
     = [story venturebeat ''Story D'' ''https://example.org/story'' (Time 1704153600000)]"
  by code_simp+

lemma apart_tasks:
  "source_task apart_host i techcrunch
     = [story techcrunch ''Story A'' ''https://example.org/story'' (Time 1704067200000)]"
  "source_task apart_host i the_verge
     = [story the_verge ''Story B'' ''https://example.org/story'' (Time 1704240000000)]"
  "source_task apart_host i mit_tech_review = []"
  "source_task apart_host i ars_technica
     = [story ars_technica ''Story C'' ''https://example.org/story'' (Time 1704153600000)]"
  "source_task apart_host i venturebeat
     = [story venturebeat ''Story D'' ''https://example.org/story'' (Time 1704153600000)]"
  by (simp_all add: source_task_def truthy_def apart_fields apart_parses apart_fetches)

lemma apart_keys:
  "map dedup_key
     [story techcrunch ''Story A'' ''https://example.org/story'' (Time 1704067200000),
      story the_verge ''Story B'' ''https://example.org/story'' (Time 1704240000000),
      story ars_technica ''Story C'' ''https://example.org/story'' (Time 1704153600000),
      story venturebeat ''Story D'' ''https://example.org/story'' (Time 1704153600000)]
   = [''story a'', ''story b'', ''story c'', ''story d'']"
  by code_simp

lemma apart_unique:
  "dedup_filter {} (Array_sort compareFn
     [story techcrunch ''Story A'' ''https://example.org/story'' (Time 1704067200000),
      story the_verge ''Story B'' ''https://example.org/story'' (Time 1704240000000),
      story ars_technica ''Story C'' ''https://example.org/story'' (Time 1704153600000),
      story venturebeat ''Story D'' ''https://example.org/story'' (Time 1704153600000)])
   = [story the_verge ''Story B'' ''https://example.org/story'' (Time 1704240000000),
      story ars_technica ''Story C'' ''https://example.org/story'' (Time 1704153600000),
      story venturebeat ''Story D'' ''https://example.org/story'' (Time 1704153600000),
      story techcrunch ''Story A'' ''https://example.org/story'' (Time 1704067200000)]"
  by code_simp

theorem source_isolation_witness:
  "\<not> host_fault one_down_host
   \<and> RSS_SOURCES ! 2 = mit_tech_review
   \<and> fetchWithProxy (fetch one_down_host) (url mit_tech_review) = None
   \<and> source_task one_down_host 2 mit_tech_review = []
   \<and> flattened one_down_host
       = [story techcrunch ''Story A'' ''https://example.org/story'' (Time 1704067200000),
          story the_verge ''Story B'' ''https://example.org/story'' (Time 1704240000000),
          story ars_technica ''Story C'' ''https://example.org/story'' (Time 1704153600000),
          story venturebeat ''story a'' ''https://example.org/story'' (Time 1704153600000)]
   \<and> articles (fetchNews one_down_host initial_state)
       = [story the_verge ''Story B'' ''https://example.org/story'' (Time 1704240000000),
          story ars_technica ''Story C'' ''https://example.org/story'' (Time 1704153600000),
          story venturebeat ''story a'' ''https://example.org/story'' (Time 1704153600000)]
   \<and> error (fetchNews one_down_host initial_state) = None
   \<and> set (articles (fetchNews one_down_host initial_state)) \<subseteq> set (flattened one_down_host)
   \<and> \<not> host_fault apart_host
   \<and> source_task apart_host 2 mit_tech_review = []
   \<and> flattened apart_host
       = [story techcrunch ''Story A'' ''https://example.org/story'' (Time 1704067200000),
          story the_verge ''Story B'' ''https://example.org/story'' (Time 1704240000000),
          story ars_technica ''Story C'' ''https://example.org/story'' (Time 1704153600000),
          story venturebeat ''Story D'' ''https://example.org/story'' (Time 1704153600000)]
   \<and> distinct (map dedup_key (flattened apart_host))
   \<and> articles (fetchNews apart_host initial_state)
       = [story the_verge ''Story B'' ''https://example.org/story'' (Time 1704240000000),
          story ars_technica ''Story C'' ''https://example.org/story'' (Time 1704153600000),
          story venturebeat ''Story D'' ''https://example.org/story'' (Time 1704153600000),
          story techcrunch ''Story A'' ''https://example.org/story'' (Time 1704067200000)]
   \<and> set (articles (fetchNews apart_host initial_state)) = set (flattened apart_host)"
proof -
  have up: "\<forall>i < length RSS_SOURCES. i \<noteq> 2 \<longrightarrow> source_task one_down_host i (RSS_SOURCES ! i) \<noteq> []"
    by (simp add: all_less_5 RSS_SOURCES_nth one_down_tasks)
  have dn: "source_task one_down_host 2 (RSS_SOURCES ! 2) = []"
    by (simp add: RSS_SOURCES_nth one_down_tasks)
  have fl: "flattened one_down_host
     = [story techcrunch ''Story A'' ''https://example.org/story'' (Time 1704067200000),
        story the_verge ''Story B'' ''https://example.org/story'' (Time 1704240000000),
        story ars_technica ''Story C'' ''https://example.org/story'' (Time 1704153600000),
        story venturebeat ''story a'' ''https://example.org/story'' (Time 1704153600000)]"
    by (simp add: flattened_sources one_down_tasks)
  have u: "unique one_down_host
     = [story the_verge ''Story B'' ''https://example.org/story'' (Time 1704240000000),
        story ars_technica ''Story C'' ''https://example.org/story'' (Time 1704153600000),
        story venturebeat ''story a'' ''https://example.org/story'' (Time 1704153600000)]"
    by (simp add: unique_def allArticles_def fl one_down_unique)
  have j: "2 < length RSS_SOURCES" by (simp add: RSS_SOURCES_nth)
  from source_isolation [OF one_down_fields(1) j dn up, of initial_state]
  have a: "articles (fetchNews one_down_host initial_state) = unique one_down_host"
    and e: "error (fetchNews one_down_host initial_state) = None"
    and s: "set (articles (fetchNews one_down_host initial_state)) \<subseteq> set (flattened one_down_host)"
    by blast+
  have a': "articles (fetchNews one_down_host initial_state)
       = [story the_verge ''Story B'' ''https://example.org/story'' (Time 1704240000000),
          story ars_technica ''Story C'' ''https://example.org/story'' (Time 1704153600000),
          story venturebeat ''story a'' ''https://example.org/story'' (Time 1704153600000)]"
    using a by (simp only: u)
  have up2: "\<forall>i < length RSS_SOURCES. i \<noteq> 2 \<longrightarrow> source_task apart_host i (RSS_SOURCES ! i) \<noteq> []"
    by (simp add: all_less_5 RSS_SOURCES_nth apart_tasks)
  have dn2: "source_task apart_host 2 (RSS_SOURCES ! 2) = []"
    by (simp add: RSS_SOURCES_nth apart_tasks)
  have fl2: "flattened apart_host
     = [story techcrunch ''Story A'' ''https://example.org/story'' (Time 1704067200000),
        story the_verge ''Story B'' ''https://example.org/story'' (Time 1704240000000),
        story ars_technica ''Story C'' ''https://example.org/story'' (Time 1704153600000),
        story venturebeat ''Story D'' ''https://example.org/story'' (Time 1704153600000)]"
    by (simp add: flattened_sources apart_tasks)
  have ds: "distinct (map dedup_key (flattened apart_host))"
    unfolding fl2 apart_keys by simp
  have u2: "unique apart_host
     = [story the_verge ''Story B'' ''https://example.org/story'' (Time 1704240000000),
        story ars_technica ''Story C'' ''https://example.org/story'' (Time 1704153600000),
        story venturebeat ''Story D'' ''https://example.org/story'' (Time 1704153600000),
        story techcrunch ''Story A'' ''https://example.org/story'' (Time 1704067200000)]"
    by (simp add: unique_def allArticles_def fl2 apart_unique)
  from source_isolation [OF apart_fields(1) j dn2 up2, of initial_state]
  have b: "articles (fetchNews apart_host initial_state) = unique apart_host"
    and t: "distinct (map dedup_key (flattened apart_host))
            \<longrightarrow> set (articles (fetchNews apart_host initial_state)) = set (flattened apart_host)"
    by blast+
  have b': "articles (fetchNews apart_host initial_state)
       = [story the_verge ''Story B'' ''https://example.org/story'' (Time 1704240000000),
          story ars_technica ''Story C'' ''https://example.org/story'' (Time 1704153600000),
          story venturebeat ''Story D'' ''https://example.org/story'' (Time 1704153600000),
          story techcrunch ''Story A'' ''https://example.org/story'' (Time 1704067200000)]"
    using b by (simp only: u2)
  from t ds have t': "set (articles (fetchNews apart_host initial_state)) = set (flattened apart_host)"
    by (rule mp)
  from one_down_fields(1) RSS_SOURCES_nth(4) one_down_fetches(3) one_down_tasks(3) [of 2] fl a' e s
    apart_fields(1) apart_tasks(3) [of 2] fl2 ds b' t'
  show ?thesis by (intro conjI)
qed

lemma one_down_result:
  "articles (fetchNews one_down_host initial_state)
     = [story the_verge ''Story B'' ''https://example.org/story'' (Time 1704240000000),
        story ars_technica ''Story C'' ''https://example.org/story'' (Time 1704153600000),
        story venturebeat ''story a'' ''https://example.org/story'' (Time 1704153600000)]"
proof -
  have u: "unique one_down_host
     = [story the_verge ''Story B'' ''https://example.org/story'' (Time 1704240000000),
        story ars_technica ''Story C'' ''https://example.org/story'' (Time 1704153600000),
        story venturebeat ''story a'' ''https://example.org/story'' (Time 1704153600000)]"
    by (simp add: unique_def allArticles_def flattened_sources one_down_tasks one_down_unique)
  then have "unique one_down_host \<noteq> []" by simp
  then have "articles (fetchNews one_down_host initial_state) = unique one_down_host"
    by (simp add: fetchNews_live one_down_fields)
  then show ?thesis by (simp only: u)
qed

text \<open>
  Claim C3 as stated fails: the list need not contain the articles of every successful
  source. On \<open>one_down_host\<close> exactly one source fails and each of the four others answers
  with a valid feed of one story. The story of TechCrunch has the key of the more recent
  story of VentureBeat, so the deduplication drops it, and the list holds no article of
  TechCrunch.
\<close>

theorem source_isolation_counterexample:
  "\<not> host_fault one_down_host
   \<and> source_task one_down_host 0 techcrunch
       = [story techcrunch ''Story A'' ''https://example.org/story'' (Time 1704067200000)]
   \<and> source_task one_down_host 1 the_verge
       = [story the_verge ''Story B'' ''https://example.org/story'' (Time 1704240000000)]
   \<and> source_task one_down_host 2 mit_tech_review = []
   \<and> source_task one_down_host 3 ars_technica
       = [story ars_technica ''Story C'' ''https://example.org/story'' (Time 1704153600000)]
   \<and> source_task one_down_host 4 venturebeat
       = [story venturebeat ''story a'' ''https://example.org/story'' (Time 1704153600000)]
   \<and> map (\<lambda>a. (source a, title a)) (articles (fetchNews one_down_host initial_state))
       = [(''The Verge AI'', ''Story B''), (''Ars Technica AI'', ''Story C''),
          (''VentureBeat AI'', ''story a'')]
   \<and> story techcrunch ''Story A'' ''https://example.org/story'' (Time 1704067200000)
        \<notin> set (articles (fetchNews one_down_host initial_state))"
proof -
  have m: "map (\<lambda>a. (source a, title a)) (articles (fetchNews one_down_host initial_state))
       = [(''The Verge AI'', ''Story B''), (''Ars Technica AI'', ''Story C''),
          (''VentureBeat AI'', ''story a'')]"
    by (simp add: one_down_result story_def source_defs)
  have n: "story techcrunch ''Story A'' ''https://example.org/story'' (Time 1704067200000)
        \<notin> set (articles (fetchNews one_down_host initial_state))"
    by (simp add: one_down_result story_def source_defs)
  from m n one_down_fields(1) one_down_tasks [of 0] one_down_tasks(2) [of 1]
    one_down_tasks(3) [of 2] one_down_tasks(4) [of 3] one_down_tasks(5) [of 4]
  show ?thesis by (intro conjI)
qed

end
